theory Spec2Isabelle
  imports Main
begin

section \<open>The document: elements, class lists, the page state\<close>

text \<open>
  The script \<^verbatim>\<open>assets/js/script.js\<close> only reads and writes properties of DOM elements.
  An element is a record of the properties the script touches; elements live in a store
  indexed by node identity, so that two references to one element alias, as they do in
  the browser. A reference that \<^verbatim>\<open>querySelector\<close> may leave \<^verbatim>\<open>null\<close> (or an index read
  that may give \<^verbatim>\<open>undefined\<close>) is a \<open>node option\<close>.

  Strings are lists of 8-bit characters, read as the code units \<open>U+0000\<close> to \<open>U+00FF\<close>
  (Basic Latin and Latin-1 Supplement). \<^verbatim>\<open>innerText\<close>, \<^verbatim>\<open>innerHTML\<close>, \<^verbatim>\<open>src\<close> and
  \<^verbatim>\<open>alt\<close> are independent fields of an element: reading one gives what was last
  written to it (the script reads them on one element and writes them on another).
  \<open>attributes\<close> maps the name of a content attribute to its value, so that
  \<^verbatim>\<open>dataset.category\<close> is the value of \<^verbatim>\<open>data-category\<close>. \<open>fieldValidity\<close> holds, for a
  form, whether each of its fields currently satisfies its declared constraints;
  \<open>descendants\<close> lists the elements below an element, in tree order.

  The state is the document (its elements in tree order, and the store), the variable
  \<^verbatim>\<open>activeFilterBtn\<close> that the filter-button listeners share, the calls made to
  \<^verbatim>\<open>window.scrollTo\<close>, and the callbacks registered for the window's \<^verbatim>\<open>load\<close> event
  and with \<^verbatim>\<open>setTimeout\<close> (each with its delay in milliseconds).
\<close>

type_synonym node = nat

record element =
  attributes :: "string \<rightharpoonup> string"
  classList :: "string list"
  innerText :: string
  innerHTML :: string
  src :: string
  alt :: string
  disabled :: bool
  fieldValidity :: "bool list"
  descendants :: "node list"

datatype callback = HideLoaderOnLoad | HideLoaderFallback

record state =
  document :: "node list"
  elems :: "node \<Rightarrow> element"
  activeFilterBtn :: "node option"
  scrollToCalls :: "(int \<times> int) list"
  loadListeners :: "callback list"
  timeouts :: "(callback \<times> nat) list"

datatype error = TypeError

text \<open>
  A handler that can throw returns an outcome: \<open>Inr s\<close> when it ran to its end in state
  \<open>s\<close>, \<open>Inl (TypeError, s)\<close> when it threw, \<open>s\<close> being the state it had reached (the
  writes made before the throw stay).
\<close>

type_synonym outcome = "(error \<times> state) + state"

definition final :: "outcome \<Rightarrow> state" where
  "final r = (case r of Inl (e, s) \<Rightarrow> s | Inr s \<Rightarrow> s)"

definition update :: "node \<Rightarrow> (element \<Rightarrow> element) \<Rightarrow> state \<Rightarrow> state" where
  "update n f s = s\<lparr>elems := (elems s)(n := f (elems s n))\<rparr>"

subsection \<open>DOMTokenList\<close>

definition contains :: "string \<Rightarrow> string list \<Rightarrow> bool" where
  "contains c cs \<longleftrightarrow> c \<in> set cs"

definition add :: "string \<Rightarrow> string list \<Rightarrow> string list" where
  "add c cs = (if c \<in> set cs then cs else cs @ [c])"

definition remove :: "string \<Rightarrow> string list \<Rightarrow> string list" where
  "remove c cs = removeAll c cs"

definition toggle :: "string \<Rightarrow> string list \<Rightarrow> string list" where
  "toggle c cs = (if c \<in> set cs then removeAll c cs else cs @ [c])"

definition toggle_force :: "string \<Rightarrow> bool \<Rightarrow> string list \<Rightarrow> string list" where
  "toggle_force c force cs = (if force then add c cs else remove c cs)"

definition has_class :: "string \<Rightarrow> node \<Rightarrow> state \<Rightarrow> bool" where
  "has_class c n s \<longleftrightarrow> contains c (classList (elems s n))"

subsection \<open>Selectors\<close>

definition hasAttribute :: "string \<Rightarrow> element \<Rightarrow> bool" where
  "hasAttribute a e \<longleftrightarrow> attributes e a \<noteq> None"

definition querySelectorAll_attr :: "string \<Rightarrow> state \<Rightarrow> node list" where
  "querySelectorAll_attr a s = filter (\<lambda>n. hasAttribute a (elems s n)) (document s)"

definition querySelector_attr :: "string \<Rightarrow> state \<Rightarrow> node option" where
  "querySelector_attr a s = find (\<lambda>n. hasAttribute a (elems s n)) (document s)"

definition querySelector_class :: "string \<Rightarrow> state \<Rightarrow> node option" where
  "querySelector_class c s = find (\<lambda>n. contains c (classList (elems s n))) (document s)"

definition querySelector_within :: "node \<Rightarrow> string \<Rightarrow> state \<Rightarrow> node option" where
  "querySelector_within this a s =
     find (\<lambda>n. hasAttribute a (elems s n)) (descendants (elems s this))"

definition dataset_category :: "element \<Rightarrow> string option" where
  "dataset_category e = attributes e ''data-category''"

definition dataset_page :: "element \<Rightarrow> string option" where
  "dataset_page e = attributes e ''data-page''"

subsection \<open>String.prototype.toLowerCase\<close>

text \<open>
  Among the characters \<open>U+0000\<close> to \<open>U+00FF\<close> the upper-case letters are \<open>A\<close> to \<open>Z\<close>
  (\<open>U+0041\<close> to \<open>U+005A\<close>) and the capitals of the Latin-1 Supplement, \<open>U+00C0\<close> to
  \<open>U+00DE\<close> without the multiplication sign \<open>U+00D7\<close>. \<^verbatim>\<open>toLowerCase\<close> maps each of
  them to its lower-case letter, which is the character 32 above it, and leaves every
  other character of the range as it is (among them the sharp s \<open>U+00DF\<close>, the micro
  sign \<open>U+00B5\<close> and the y with diaeresis \<open>U+00FF\<close>, which are lower-case already).
\<close>

definition isUpper :: "char \<Rightarrow> bool" where
  "isUpper c \<longleftrightarrow>
     ((65::nat) \<le> of_char c \<and> of_char c \<le> (90::nat)) \<or>
     ((192::nat) \<le> of_char c \<and> of_char c \<le> (222::nat) \<and> of_char c \<noteq> (215::nat))"

definition lowerChar :: "char \<Rightarrow> char" where
  "lowerChar c = (if isUpper c then char_of (of_char c + (32::nat)) else c)"

definition toLowerCase :: "string \<Rightarrow> string" where
  "toLowerCase str = map lowerChar str"

section \<open>The element registry\<close>

text \<open>
  \<^verbatim>\<open>DOMElements\<close> is computed once, when the script starts, and captured by the
  handlers; the handlers below take the slice of it that their initializer destructures.
  The fields keep the source's names, except that the \<^verbatim>\<open>container\<close> of the sidebar and of
  the form are \<open>sidebar_container\<close> and \<open>form_container\<close>, and the \<^verbatim>\<open>text\<close> of the modal
  is \<open>text_el\<close>. (The marker attribute of the select label is spelled
  \<^verbatim>\<open>data-selecct-value\<close> in the source.)
\<close>

record sidebar_elements =
  sidebar_container :: "node option"
  toggleBtn :: "node option"

record modal_elements =
  container :: "node option"
  closeBtn :: "node option"
  image :: "node option"
  title :: "node option"
  text_el :: "node option"

record technologies_elements =
  items :: "node list"
  modal :: modal_elements
  overlay :: "node option"

record filter_elements =
  select :: "node option"
  selectItems :: "node list"
  selectValue :: "node option"
  filterBtns :: "node list"
  filterItems :: "node list"

record form_elements =
  form_container :: "node option"
  inputs :: "node list"
  submitBtn :: "node option"

record navigation_elements =
  links :: "node list"
  pages :: "node list"

definition DOMElements_sidebar :: "state \<Rightarrow> sidebar_elements" where
  "DOMElements_sidebar s =
     \<lparr> sidebar_container = querySelector_attr ''data-sidebar'' s,
       toggleBtn = querySelector_attr ''data-sidebar-btn'' s \<rparr>"

definition DOMElements_technologies :: "state \<Rightarrow> technologies_elements" where
  "DOMElements_technologies s =
     \<lparr> items = querySelectorAll_attr ''data-technologies-item'' s,
       modal =
         \<lparr> container = querySelector_attr ''data-modal-container'' s,
           closeBtn = querySelector_attr ''data-modal-close-btn'' s,
           image = querySelector_attr ''data-modal-img'' s,
           title = querySelector_attr ''data-modal-title'' s,
           text_el = querySelector_attr ''data-modal-text'' s \<rparr>,
       overlay = querySelector_attr ''data-overlay'' s \<rparr>"

definition DOMElements_filter :: "state \<Rightarrow> filter_elements" where
  "DOMElements_filter s =
     \<lparr> select = querySelector_attr ''data-select'' s,
       selectItems = querySelectorAll_attr ''data-select-item'' s,
       selectValue = querySelector_attr ''data-selecct-value'' s,
       filterBtns = querySelectorAll_attr ''data-filter-btn'' s,
       filterItems = querySelectorAll_attr ''data-filter-item'' s \<rparr>"

definition DOMElements_form :: "state \<Rightarrow> form_elements" where
  "DOMElements_form s =
     \<lparr> form_container = querySelector_attr ''data-form'' s,
       inputs = querySelectorAll_attr ''data-form-input'' s,
       submitBtn = querySelector_attr ''data-form-btn'' s \<rparr>"

definition DOMElements_navigation :: "state \<Rightarrow> navigation_elements" where
  "DOMElements_navigation s =
     \<lparr> links = querySelectorAll_attr ''data-nav-link'' s,
       pages = querySelectorAll_attr ''data-page'' s \<rparr>"

section \<open>Listeners\<close>

text \<open>
  Each listener is a function of the state, and an event on an element is a run of the
  listener that the initializer attached to that element; \<open>this\<close> is the element. A
  statement that dereferences \<^verbatim>\<open>null\<close> or \<^verbatim>\<open>undefined\<close> throws a \<^verbatim>\<open>TypeError\<close> and ends
  the listener.
\<close>

definition andThen :: "outcome \<Rightarrow> (state \<Rightarrow> outcome) \<Rightarrow> outcome" where
  "andThen r f = (case r of Inl e \<Rightarrow> Inl e | Inr s \<Rightarrow> f s)"

text \<open>\<^verbatim>\<open>forEach\<close> with a callback that may throw: the throw ends the loop.\<close>

fun forEach :: "'a list \<Rightarrow> ('a \<Rightarrow> state \<Rightarrow> outcome) \<Rightarrow> state \<Rightarrow> outcome" where
  "forEach [] f s = Inr s"
| "forEach (x # xs) f s = (case f x s of Inl e \<Rightarrow> Inl e | Inr s' \<Rightarrow> forEach xs f s')"

text \<open>
  The assignment \<^verbatim>\<open>target.p = source.q\<close> through two references that may be null:
  \<open>get\<close> reads \<open>q\<close>, \<open>put\<close> writes \<open>p\<close>.
\<close>

definition assign ::
  "node option \<Rightarrow> (string \<Rightarrow> element \<Rightarrow> element) \<Rightarrow> node option \<Rightarrow> (element \<Rightarrow> string)
     \<Rightarrow> state \<Rightarrow> outcome" where
  "assign target put source get s =
     (case target of
        None \<Rightarrow> Inl (TypeError, s)
      | Some t \<Rightarrow>
          (case source of
             None \<Rightarrow> Inl (TypeError, s)
           | Some r \<Rightarrow> Inr (update t (put (get (elems s r))) s)))"

text \<open>\<^verbatim>\<open>elem.classList.toggle(c)\<close> through a reference that may be null.\<close>

definition classList_toggle :: "node option \<Rightarrow> string \<Rightarrow> state \<Rightarrow> outcome" where
  "classList_toggle elem c s =
     (case elem of
        None \<Rightarrow> Inl (TypeError, s)
      | Some n \<Rightarrow> Inr (update n (classList_update (toggle c)) s))"

definition toggleElementActive :: "node option \<Rightarrow> state \<Rightarrow> outcome" where
  "toggleElementActive elem s = classList_toggle elem ''active'' s"

section \<open>Feature: sidebar\<close>

text \<open>The click listener of the sidebar's toggle button.\<close>

definition sidebarBtn_click :: "sidebar_elements \<Rightarrow> state \<Rightarrow> outcome" where
  "sidebarBtn_click reg s = toggleElementActive (sidebar_container reg) s"

section \<open>Feature: technologies modal\<close>

definition toggleModal :: "technologies_elements \<Rightarrow> state \<Rightarrow> outcome" where
  "toggleModal reg s =
     andThen (classList_toggle (container (modal reg)) ''active'' s)
             (classList_toggle (overlay reg) ''active'')"

text \<open>The click listener of a technology item; \<open>this\<close> is the item.\<close>

definition technologiesItem_click :: "technologies_elements \<Rightarrow> node \<Rightarrow> state \<Rightarrow> outcome" where
  "technologiesItem_click reg this s =
     andThen (assign (image (modal reg)) (\<lambda>v. src_update (\<lambda>_. v))
                (querySelector_within this ''data-technologies-avatar'' s) src s) (\<lambda>s.
     andThen (assign (image (modal reg)) (\<lambda>v. alt_update (\<lambda>_. v))
                (querySelector_within this ''data-technologies-avatar'' s) alt s) (\<lambda>s.
     andThen (assign (title (modal reg)) (\<lambda>v. innerHTML_update (\<lambda>_. v))
                (querySelector_within this ''data-technologies-title'' s) innerHTML s) (\<lambda>s.
     andThen (assign (text_el (modal reg)) (\<lambda>v. innerHTML_update (\<lambda>_. v))
                (querySelector_within this ''data-technologies-text'' s) innerHTML s)
             (toggleModal reg))))"

text \<open>The click listener of the close button and of the overlay.\<close>

definition modalClose_click :: "technologies_elements \<Rightarrow> state \<Rightarrow> outcome" where
  "modalClose_click reg s = toggleModal reg s"

section \<open>Feature: filtering\<close>

definition filterItem :: "string \<Rightarrow> node \<Rightarrow> state \<Rightarrow> state" where
  "filterItem selectedValue item s =
     (if selectedValue = ''all'' \<or> Some selectedValue = dataset_category (elems s item)
      then update item (classList_update (add ''active'')) s
      else update item (classList_update (remove ''active'')) s)"

definition filterByCategory :: "filter_elements \<Rightarrow> string \<Rightarrow> state \<Rightarrow> state" where
  "filterByCategory reg selectedValue s = fold (filterItem selectedValue) (filterItems reg) s"

text \<open>The click listener of the select button.\<close>

definition select_click :: "node \<Rightarrow> state \<Rightarrow> outcome" where
  "select_click this s = toggleElementActive (Some this) s"

text \<open>The click listener of a dropdown option; \<open>this\<close> is the option.\<close>

definition selectItem_click :: "filter_elements \<Rightarrow> node \<Rightarrow> state \<Rightarrow> outcome" where
  "selectItem_click reg this s =
     (let selectedValue = toLowerCase (innerText (elems s this)) in
      andThen (assign (selectValue reg) (\<lambda>v. innerText_update (\<lambda>_. v)) (Some this) innerText s) (\<lambda>s.
      andThen (toggleElementActive (select reg) s) (\<lambda>s.
      Inr (filterByCategory reg selectedValue s))))"

text \<open>
  \<^verbatim>\<open>let activeFilterBtn = filterBtns[0]\<close>: the variable the filter-button listeners
  share; \<^verbatim>\<open>undefined\<close> when there is no filter button. The initializer throws before,
  at \<^verbatim>\<open>select.addEventListener\<close>, when the select button is missing.
\<close>

definition initFiltering :: "filter_elements \<Rightarrow> state \<Rightarrow> outcome" where
  "initFiltering reg s =
     (case select reg of
        None \<Rightarrow> Inl (TypeError, s)
      | Some _ \<Rightarrow>
          Inr (s\<lparr>activeFilterBtn :=
                   (case filterBtns reg of [] \<Rightarrow> None | b # _ \<Rightarrow> Some b)\<rparr>))"

text \<open>The click listener of a filter button; \<open>this\<close> is the button.\<close>

definition filterBtn_click :: "filter_elements \<Rightarrow> node \<Rightarrow> state \<Rightarrow> outcome" where
  "filterBtn_click reg this s =
     (let selectedValue = toLowerCase (innerText (elems s this)) in
      andThen (assign (selectValue reg) (\<lambda>v. innerText_update (\<lambda>_. v)) (Some this) innerText s) (\<lambda>s.
      (let s = filterByCategory reg selectedValue s in
       case activeFilterBtn s of
         None \<Rightarrow> Inl (TypeError, s)
       | Some prev \<Rightarrow>
           (let s = update prev (classList_update (remove ''active'')) s;
                s = update this (classList_update (add ''active'')) s
            in Inr (s\<lparr>activeFilterBtn := Some this\<rparr>)))))"

text \<open>A sequence of clicks on filter buttons, each handled from the state the last one left.\<close>

definition filterBtn_clicks :: "filter_elements \<Rightarrow> node list \<Rightarrow> state \<Rightarrow> state" where
  "filterBtn_clicks reg btns s = fold (\<lambda>b s. final (filterBtn_click reg b s)) btns s"

section \<open>Feature: contact form\<close>

text \<open>
  \<^verbatim>\<open>checkValidity()\<close> is the host's: a form is valid when each of its fields satisfies
  its constraints.
\<close>

definition checkValidity :: "element \<Rightarrow> bool" where
  "checkValidity form \<longleftrightarrow> list_all (\<lambda>ok. ok) (fieldValidity form)"

text \<open>The input listener of a form field.\<close>

definition formInput_input :: "form_elements \<Rightarrow> state \<Rightarrow> outcome" where
  "formInput_input reg s =
     (case submitBtn reg of
        None \<Rightarrow> Inl (TypeError, s)
      | Some btn \<Rightarrow>
          (case form_container reg of
             None \<Rightarrow> Inl (TypeError, s)
           | Some form \<Rightarrow>
               Inr (update btn (disabled_update (\<lambda>_. \<not> checkValidity (elems s form))) s)))"

section \<open>Feature: page navigation\<close>

definition window_scrollTo :: "int \<Rightarrow> int \<Rightarrow> state \<Rightarrow> state" where
  "window_scrollTo x y s = s\<lparr>scrollToCalls := scrollToCalls s @ [(x, y)]\<rparr>"

text \<open>
  The body of \<^verbatim>\<open>pages.forEach((page, pageIndex) => ...)\<close>. \<^verbatim>\<open>links[pageIndex]\<close> is
  \<^verbatim>\<open>undefined\<close> past the end of \<open>links\<close>, and reading its \<^verbatim>\<open>classList\<close> throws, after
  the page's own class has been written.
\<close>

definition switchPage :: "navigation_elements \<Rightarrow> string \<Rightarrow> nat \<times> node \<Rightarrow> state \<Rightarrow> outcome" where
  "switchPage reg clickedPageName ip s =
     (let pageIndex = fst ip; page = snd ip;
          isTargetPage = (Some clickedPageName = dataset_page (elems s page));
          s = update page (classList_update (toggle_force ''active'' isTargetPage)) s
      in if pageIndex < length (links reg)
         then (let s = update (links reg ! pageIndex)
                         (classList_update (toggle_force ''active'' isTargetPage)) s
               in Inr (if isTargetPage then window_scrollTo 0 0 s else s))
         else Inl (TypeError, s))"

text \<open>The click listener of a navigation link; \<open>this\<close> is the link.\<close>

definition navLink_click :: "navigation_elements \<Rightarrow> node \<Rightarrow> state \<Rightarrow> outcome" where
  "navLink_click reg this s =
     (let clickedPageName = toLowerCase (innerHTML (elems s this)) in
      forEach (enumerate 0 (pages reg)) (switchPage reg clickedPageName) s)"

section \<open>Feature: scroll animations\<close>

record entry =
  target :: node
  isIntersecting :: bool

text \<open>
  The callback given to the \<^verbatim>\<open>IntersectionObserver\<close>; an entry names the observed
  element and says whether it intersects the viewport past the observer's threshold.
\<close>

definition revealEntry :: "entry \<Rightarrow> state \<Rightarrow> state" where
  "revealEntry e s =
     (if isIntersecting e then update (target e) (classList_update (add ''visible'')) s else s)"

definition observerCallback :: "entry list \<Rightarrow> state \<Rightarrow> state" where
  "observerCallback entries s = fold revealEntry entries s"

section \<open>The page loader\<close>

text \<open>
  The \<^verbatim>\<open>DOMContentLoaded\<close> listener at the end of the script registers a \<^verbatim>\<open>load\<close>
  listener on the window and a timer of 3000 milliseconds.
\<close>

definition onDOMContentLoaded :: "state \<Rightarrow> state" where
  "onDOMContentLoaded s =
     s\<lparr>loadListeners := loadListeners s @ [HideLoaderOnLoad],
       timeouts := timeouts s @ [(HideLoaderFallback, 3000)]\<rparr>"

definition hideLoaderOnLoad :: "state \<Rightarrow> state" where
  "hideLoaderOnLoad s =
     (case querySelector_class ''page-loader'' s of
        None \<Rightarrow> s
      | Some loader \<Rightarrow> update loader (classList_update (add ''hidden'')) s)"

definition hideLoaderFallback :: "state \<Rightarrow> state" where
  "hideLoaderFallback s =
     (case querySelector_class ''page-loader'' s of
        None \<Rightarrow> s
      | Some loader \<Rightarrow>
          (if \<not> contains ''hidden'' (classList (elems s loader))
           then update loader (classList_update (add ''hidden'')) s
           else s))"

fun run :: "callback \<Rightarrow> state \<Rightarrow> state" where
  "run HideLoaderOnLoad s = hideLoaderOnLoad s"
| "run HideLoaderFallback s = hideLoaderFallback s"

section \<open>The invariant of the filter buttons\<close>

text \<open>
  Button \<open>a\<close> is the tracked one and, of the filter buttons, it alone carries the marker.
\<close>

definition highlighted_only :: "filter_elements \<Rightarrow> node \<Rightarrow> state \<Rightarrow> bool" where
  "highlighted_only reg a s \<longleftrightarrow>
     activeFilterBtn s = Some a \<and>
     (\<forall>b \<in> set (filterBtns reg). has_class ''active'' b s \<longleftrightarrow> b = a)"

section \<open>Example pages\<close>

definition blank :: element where
  "blank = \<lparr> attributes = Map.empty, classList = [], innerText = [], innerHTML = [],
             src = [], alt = [], disabled = False, fieldValidity = [], descendants = [] \<rparr>"

definition tag :: "(string \<times> string) list \<Rightarrow> string list \<Rightarrow> string \<Rightarrow> element" where
  "tag as cs txt =
     blank\<lparr> attributes := map_of as, classList := cs, innerText := txt, innerHTML := txt \<rparr>"

definition store_of :: "element list \<Rightarrow> node \<Rightarrow> element" where
  "store_of es n = (if n < length es then es ! n else blank)"

definition page_of :: "element list \<Rightarrow> state" where
  "page_of es =
     \<lparr> document = [0..<length es], elems = store_of es, activeFilterBtn = None,
       scrollToCalls = [], loadListeners = [], timeouts = [] \<rparr>"

text \<open>
  The portfolio section: a select button (node 0) with its label (1) and two options
  (2, 3), three filter buttons (4 to 6, the first highlighted) and three projects (7 to 9)
  of categories \<open>web\<close>, \<open>mobile\<close>, \<open>web\<close>.
\<close>

definition portfolio_page :: state where
  "portfolio_page = page_of
     [ tag [(''data-select'', [])] [''filter-select''] ''Select category'',
       tag [(''data-selecct-value'', [])] [''select-value''] ''Select category'',
       tag [(''data-select-item'', [])] [] ''All'',
       tag [(''data-select-item'', [])] [] ''Web'',
       tag [(''data-filter-btn'', [])] [''active''] ''All'',
       tag [(''data-filter-btn'', [])] [] ''Web'',
       tag [(''data-filter-btn'', [])] [] ''Mobile'',
       tag [(''data-filter-item'', []), (''data-category'', ''web'')] [''active''] [],
       tag [(''data-filter-item'', []), (''data-category'', ''mobile'')] [''active''] [],
       tag [(''data-filter-item'', []), (''data-category'', ''web'')] [''active''] [] ]"

text \<open>A contact form (node 0) with two fields, the second one invalid, and its button (2).\<close>

definition contact_page :: state where
  "contact_page = page_of
     [ (tag [(''data-form'', [])] [''form''] [])\<lparr> fieldValidity := [True, False] \<rparr>,
       tag [(''data-form-input'', [])] [''form-input''] [],
       tag [(''data-form-btn'', [])] [''form-btn''] ''Send Message'' ]"

text \<open>A page with a loader (node 1), and a page without one.\<close>

definition loading_page :: state where
  "loading_page = page_of [ tag [] [''sidebar''] [], tag [] [''page-loader''] [] ]"

definition bare_page :: state where
  "bare_page = page_of [ tag [] [''sidebar''] [] ]"

definition portfolio :: filter_elements where
  "portfolio = DOMElements_filter portfolio_page"

text \<open>The portfolio section once \<^verbatim>\<open>initFiltering\<close> has run.\<close>

definition portfolio_ready :: state where
  "portfolio_ready = final (initFiltering portfolio portfolio_page)"

text \<open>The same, with the markup highlighting the third filter button as well as the first.\<close>

definition two_highlights_ready :: state where
  "two_highlights_ready = update 6 (classList_update (\<lambda>_. [''active''])) portfolio_ready"

text \<open>
  A portfolio whose only project has the category \<open>Design\<close>, written with a capital:
  select button (0), label (1), options \<open>Design\<close> and \<open>All\<close> (2, 3), filter buttons \<open>All\<close>
  and \<open>Design\<close> (4, 5), the project (6).
\<close>

definition design_page :: state where
  "design_page = page_of
     [ tag [(''data-select'', [])] [''filter-select''] ''Select category'',
       tag [(''data-selecct-value'', [])] [''select-value''] ''Select category'',
       tag [(''data-select-item'', [])] [] ''Design'',
       tag [(''data-select-item'', [])] [] ''All'',
       tag [(''data-filter-btn'', [])] [''active''] ''All'',
       tag [(''data-filter-btn'', [])] [] ''Design'',
       tag [(''data-filter-item'', []), (''data-category'', ''Design'')] [''active''] [] ]"

definition design :: filter_elements where
  "design = DOMElements_filter design_page"


text \<open>
  A navigation bar with the links \<open>About\<close>, \<open>Resume\<close> and \<open>Blog\<close> (0 to 2) and the pages
  \<open>about\<close>, \<open>resume\<close> and \<open>portfolio\<close> (3 to 5); the first link and page are active, and
  no page is called \<open>blog\<close>.
\<close>

definition nav_page :: state where
  "nav_page = page_of
     [ tag [(''data-nav-link'', [])] [''navbar-link'', ''active''] ''About'',
       tag [(''data-nav-link'', [])] [''navbar-link''] ''Resume'',
       tag [(''data-nav-link'', [])] [''navbar-link''] ''Blog'',
       tag [(''data-page'', ''about'')] [''about'', ''active''] [],
       tag [(''data-page'', ''resume'')] [''resume''] [],
       tag [(''data-page'', ''portfolio'')] [''portfolio''] [] ]"

definition nav :: navigation_elements where
  "nav = DOMElements_navigation nav_page"

text \<open>
  The modal, closed: container (0), close button (1), image, title and text (2 to 4),
  overlay (5); and a technology item (6) with its avatar, title and text (7 to 9).
\<close>

definition modal_page :: state where
  "modal_page = page_of
     [ tag [(''data-modal-container'', [])] [''modal-container''] [],
       tag [(''data-modal-close-btn'', [])] [''modal-close-btn''] [],
       (tag [(''data-modal-img'', [])] [] []) \<lparr> src := ''dart.png'', alt := ''Dart'' \<rparr>,
       tag [(''data-modal-title'', [])] [''modal-title''] ''Dart'',
       tag [(''data-modal-text'', [])] [] ''<p>Language</p>'',
       tag [(''data-overlay'', [])] [''overlay''] [],
       (tag [(''data-technologies-item'', [])] [''technologies-item''] [])
         \<lparr> descendants := [7, 8, 9] \<rparr>,
       (tag [(''data-technologies-avatar'', [])] [] [])
         \<lparr> src := ''flutter.png'', alt := ''Flutter'' \<rparr>,
       tag [(''data-technologies-title'', [])] [''h4''] ''Flutter'',
       tag [(''data-technologies-text'', [])] [] ''<p>Mobile apps</p>'' ]"

definition technologies :: technologies_elements where
  "technologies = DOMElements_technologies modal_page"

text \<open>The same page with the modal open.\<close>

definition open_modal_page :: state where
  "open_modal_page =
     update 5 (classList_update (\<lambda>_. [''overlay'', ''active'']))
       (update 0 (classList_update (\<lambda>_. [''modal-container'', ''active''])) modal_page)"

text \<open>
  A navigation bar in French: the links \<open>Accueil\<close> (0) and \<open>Etudes\<close> (2), the second
  written with a capital e with acute accent (\<open>U+00C9\<close>), and their pages (1, 3), whose
  identifiers are in lower case (with \<open>U+00E9\<close>).
\<close>

definition etudes_page :: state where
  "etudes_page = page_of
     [ tag [(''data-nav-link'', [])] [''navbar-link'', ''active''] ''Accueil'',
       tag [(''data-page'', ''accueil'')] [''accueil'', ''active''] [],
       tag [(''data-nav-link'', [])] [''navbar-link''] (CHR 0xC9 # ''tudes''),
       tag [(''data-page'', CHR 0xE9 # ''tudes'')] [''etudes''] [] ]"

definition etudes_nav :: navigation_elements where
  "etudes_nav = DOMElements_navigation etudes_page"

text \<open>
  A navigation bar with one link (0), whose markup is \<^verbatim>\<open>R&amp;D\<close> and whose text is
  therefore \<^verbatim>\<open>R&D\<close>, and the page (1) of identifier \<^verbatim>\<open>r&d\<close>.
\<close>

definition research_page :: state where
  "research_page = page_of
     [ (tag [(''data-nav-link'', [])] [''navbar-link''] ''R&D'') \<lparr> innerHTML := ''R&amp;D'' \<rparr>,
       tag [(''data-page'', ''r&d'')] [''research''] [] ]"

definition research_nav :: navigation_elements where
  "research_nav = DOMElements_navigation research_page"




section \<open>Stores and class lists\<close>

lemma elems_update [simp]:
  "elems (update n f s) m = (if m = n then f (elems s n) else elems s m)"
  by (simp add: update_def)

lemma document_update [simp]: "document (update n f s) = document s"
  by (simp add: update_def)

lemma activeFilterBtn_update [simp]: "activeFilterBtn (update n f s) = activeFilterBtn s"
  by (simp add: update_def)

lemma scrollToCalls_update [simp]: "scrollToCalls (update n f s) = scrollToCalls s"
  by (simp add: update_def)

lemma contains_add [simp]: "contains c (add d cs) \<longleftrightarrow> c = d \<or> contains c cs"
  by (auto simp add: contains_def add_def)

lemma contains_remove [simp]: "contains c (remove d cs) \<longleftrightarrow> c \<noteq> d \<and> contains c cs"
  by (auto simp add: contains_def remove_def)

lemma contains_toggle [simp]:
  "contains c (toggle d cs) \<longleftrightarrow> (if c = d then \<not> contains c cs else contains c cs)"
  by (auto simp add: contains_def toggle_def)

lemma contains_toggle_force [simp]:
  "contains c (toggle_force d force cs) \<longleftrightarrow> (if c = d then force else contains c cs)"
  by (simp add: toggle_force_def)

lemma final_Inr: "r = Inr s \<Longrightarrow> final r = s"
  by (simp add: final_def)

lemma update_same:
  "f (elems s n) = elems s n \<Longrightarrow> update n f s = s"
  by (simp add: update_def)

section \<open>Filtering by category\<close>

lemma filterItem_attributes:
  "attributes (elems (filterItem v x s) n) = attributes (elems s n)"
  by (simp add: filterItem_def)

lemma filterItem_other: "n \<noteq> x \<Longrightarrow> elems (filterItem v x s) n = elems s n"
  by (simp add: filterItem_def)

lemma filterItem_self:
  "has_class ''active'' x (filterItem v x s) \<longleftrightarrow>
     (v = ''all'' \<or> dataset_category (elems s x) = Some v)"
  by (auto simp add: filterItem_def has_class_def)

lemma fold_filterItem_attributes:
  "attributes (elems (fold (filterItem v) xs s) n) = attributes (elems s n)"
  by (induction xs arbitrary: s) (simp_all add: filterItem_attributes)

lemma fold_filterItem_other:
  "n \<notin> set xs \<Longrightarrow> elems (fold (filterItem v) xs s) n = elems s n"
  by (induction xs arbitrary: s) (simp_all add: filterItem_other)

lemma fold_filterItem_class:
  "n \<in> set xs \<Longrightarrow>
   has_class ''active'' n (fold (filterItem v) xs s) \<longleftrightarrow>
     (v = ''all'' \<or> dataset_category (elems s n) = Some v)"
proof (induction xs arbitrary: s)
  case Nil
  then show ?case by simp
next
  case (Cons x xs)
  have cat: "dataset_category (elems (filterItem v x s) n) = dataset_category (elems s n)"
    by (simp add: dataset_category_def filterItem_attributes)
  show ?case
  proof (cases "n \<in> set xs")
    case True
    then show ?thesis using Cons.IH [of "filterItem v x s"] cat by simp
  next
    case False
    with Cons.prems have "n = x" by simp
    with False show ?thesis
      using fold_filterItem_other [of x xs v "filterItem v x s"] filterItem_self [of x v s]
      by (simp add: has_class_def)
  qed
qed

text \<open>
  C1. Whatever category string is selected, \<^verbatim>\<open>filterByCategory\<close> leaves each filter item
  with the visibility marker (the class \<^verbatim>\<open>active\<close>) exactly when the string is \<open>all\<close> or
  equals the item's \<^verbatim>\<open>data-category\<close>; with \<open>all\<close> every item is left marked.
\<close>

theorem filterByCategory_marks_matching:
  "(\<forall>item \<in> set (filterItems reg).
      has_class ''active'' item (filterByCategory reg selectedValue s) \<longleftrightarrow>
        (selectedValue = ''all'' \<or> dataset_category (elems s item) = Some selectedValue)) \<and>
   (\<forall>item \<in> set (filterItems reg). has_class ''active'' item (filterByCategory reg ''all'' s))"
  by (simp add: filterByCategory_def fold_filterItem_class)

lemma portfolio_registry:
  "DOMElements_filter portfolio_page =
     \<lparr> select = Some 0, selectItems = [2, 3], selectValue = Some 1,
       filterBtns = [4, 5, 6], filterItems = [7, 8, 9] \<rparr>"
  by code_simp

lemma portfolio_categories:
  "dataset_category (elems portfolio_page 7) = Some ''web''"
  "dataset_category (elems portfolio_page 8) = Some ''mobile''"
  "dataset_category (elems portfolio_page 9) = Some ''web''"
  by code_simp+

theorem filterByCategory_marks_matching_witness:
  "filterItems (DOMElements_filter portfolio_page) = [7, 8, 9] \<and>
   has_class ''active'' 7 (filterByCategory (DOMElements_filter portfolio_page) ''web'' portfolio_page) \<and>
   \<not> has_class ''active'' 8 (filterByCategory (DOMElements_filter portfolio_page) ''web'' portfolio_page) \<and>
   has_class ''active'' 9 (filterByCategory (DOMElements_filter portfolio_page) ''web'' portfolio_page) \<and>
   has_class ''active'' 8 (filterByCategory (DOMElements_filter portfolio_page) ''all'' portfolio_page)"
  using filterByCategory_marks_matching [of "DOMElements_filter portfolio_page" "''web''" portfolio_page]
  by (simp add: portfolio_registry portfolio_categories)

section \<open>The form gate\<close>

text \<open>
  C6. With the form and its submit control in the registry, the input listener runs to
  its end and leaves the control's \<^verbatim>\<open>disabled\<close> flag equal to the negation of the form's
  \<^verbatim>\<open>checkValidity()\<close>, whatever the validity of each field is: the control is disabled
  exactly when some field is invalid. The fields' validity is not changed by the
  listener.
\<close>

theorem formInput_disabled_iff_invalid:
  assumes "submitBtn reg = Some btn" and "form_container reg = Some form"
  shows "\<exists>s'. formInput_input reg s = Inr s' \<and>
           disabled (elems s' btn) = (\<not> checkValidity (elems s' form)) \<and>
           disabled (elems s' btn) = (\<not> checkValidity (elems s form)) \<and>
           disabled (elems s' btn) = (False \<in> set (fieldValidity (elems s form))) \<and>
           fieldValidity (elems s' form) = fieldValidity (elems s form)"
  using assms by (auto simp add: formInput_input_def checkValidity_def list_all_iff)

lemma contact_registry:
  "DOMElements_form contact_page =
     \<lparr> form_container = Some 0, inputs = [1], submitBtn = Some 2 \<rparr>"
  by code_simp

theorem formInput_disabled_iff_invalid_witness:
  "submitBtn (DOMElements_form contact_page) = Some 2 \<and>
   form_container (DOMElements_form contact_page) = Some 0 \<and>
   \<not> disabled (elems contact_page 2) \<and>
   disabled (elems (final (formInput_input (DOMElements_form contact_page) contact_page)) 2)"
proof -
  have btn: "submitBtn (DOMElements_form contact_page) = Some 2"
    and form: "form_container (DOMElements_form contact_page) = Some 0"
    by (simp_all add: contact_registry)
  have invalid: "\<not> checkValidity (elems contact_page 0)"
    by code_simp
  have enabled: "\<not> disabled (elems contact_page 2)"
    by code_simp
  from formInput_disabled_iff_invalid [OF btn form, of contact_page] invalid
  have "disabled (elems (final (formInput_input (DOMElements_form contact_page) contact_page)) 2)"
    by (auto simp add: final_def)
  with btn form enabled show ?thesis by simp
qed

section \<open>The loader\<close>

lemma querySelector_class_add:
  assumes "c \<noteq> d"
  shows "querySelector_class c (update n (classList_update (add d)) s) = querySelector_class c s"
proof -
  have "(\<lambda>m. contains c (classList (elems (update n (classList_update (add d)) s) m)))
          = (\<lambda>m. contains c (classList (elems s m)))"
    using assms by (intro ext) simp
  then show ?thesis
    by (simp add: querySelector_class_def)
qed

lemma loader_after_load:
  "querySelector_class ''page-loader'' (hideLoaderOnLoad s) = querySelector_class ''page-loader'' s"
  by (simp add: hideLoaderOnLoad_def querySelector_class_add split: option.splits)

lemma hideLoaderFallback_hidden:
  assumes "querySelector_class ''page-loader'' s = Some loader"
    and "has_class ''hidden'' loader s"
  shows "hideLoaderFallback s = s"
  using assms by (simp add: hideLoaderFallback_def has_class_def)

text \<open>
  C7. The \<^verbatim>\<open>DOMContentLoaded\<close> listener registers the hiding of the loader on the
  window's \<^verbatim>\<open>load\<close> event and on a timer of 3000 ms. When there is no loader, neither
  callback changes anything (and neither can throw). When there is one, it is hidden
  after either callback has run; the timer's callback changes nothing when the loader is
  hidden already, so it changes nothing when it runs after the \<^verbatim>\<open>load\<close> callback.
\<close>

theorem loader_hidden_by_load_or_timer:
  "loadListeners (onDOMContentLoaded s) = loadListeners s @ [HideLoaderOnLoad] \<and>
   timeouts (onDOMContentLoaded s) = timeouts s @ [(HideLoaderFallback, 3000)] \<and>
   (querySelector_class ''page-loader'' s = None \<longrightarrow>
      run HideLoaderOnLoad s = s \<and> run HideLoaderFallback s = s) \<and>
   (\<forall>loader. querySelector_class ''page-loader'' s = Some loader \<longrightarrow>
      has_class ''hidden'' loader (run HideLoaderOnLoad s) \<and>
      has_class ''hidden'' loader (run HideLoaderFallback s) \<and>
      (has_class ''hidden'' loader s \<longrightarrow> run HideLoaderFallback s = s)) \<and>
   run HideLoaderFallback (run HideLoaderOnLoad s) = run HideLoaderOnLoad s"
proof -
  have reg: "loadListeners (onDOMContentLoaded s) = loadListeners s @ [HideLoaderOnLoad]"
    "timeouts (onDOMContentLoaded s) = timeouts s @ [(HideLoaderFallback, 3000)]"
    by (simp_all add: onDOMContentLoaded_def)
  have absent: "querySelector_class ''page-loader'' s = None \<longrightarrow>
      run HideLoaderOnLoad s = s \<and> run HideLoaderFallback s = s"
    by (simp add: hideLoaderOnLoad_def hideLoaderFallback_def)
  have present: "\<forall>loader. querySelector_class ''page-loader'' s = Some loader \<longrightarrow>
      has_class ''hidden'' loader (run HideLoaderOnLoad s) \<and>
      has_class ''hidden'' loader (run HideLoaderFallback s) \<and>
      (has_class ''hidden'' loader s \<longrightarrow> run HideLoaderFallback s = s)"
    by (simp add: hideLoaderOnLoad_def hideLoaderFallback_def has_class_def)
  have twice: "run HideLoaderFallback (run HideLoaderOnLoad s) = run HideLoaderOnLoad s"
  proof (cases "querySelector_class ''page-loader'' s")
    case None
    then show ?thesis by (simp add: hideLoaderOnLoad_def hideLoaderFallback_def)
  next
    case (Some loader)
    then have "querySelector_class ''page-loader'' (hideLoaderOnLoad s) = Some loader"
      by (simp add: loader_after_load)
    moreover from Some have "has_class ''hidden'' loader (hideLoaderOnLoad s)"
      by (simp add: hideLoaderOnLoad_def has_class_def)
    ultimately show ?thesis
      by (simp add: hideLoaderFallback_hidden)
  qed
  from reg absent present twice show ?thesis by blast
qed

theorem loader_hidden_by_load_or_timer_witness:
  "querySelector_class ''page-loader'' loading_page = Some 1 \<and>
   \<not> has_class ''hidden'' 1 loading_page \<and>
   has_class ''hidden'' 1 (run HideLoaderOnLoad loading_page) \<and>
   has_class ''hidden'' 1 (run HideLoaderFallback loading_page) \<and>
   querySelector_class ''page-loader'' bare_page = None \<and>
   run HideLoaderOnLoad bare_page = bare_page \<and>
   run HideLoaderFallback bare_page = bare_page"
proof -
  have present: "querySelector_class ''page-loader'' loading_page = Some 1"
    by code_simp
  have visible: "\<not> has_class ''hidden'' 1 loading_page"
    by code_simp
  have absent: "querySelector_class ''page-loader'' bare_page = None"
    by code_simp
  from loader_hidden_by_load_or_timer [of loading_page] present
  have "has_class ''hidden'' 1 (run HideLoaderOnLoad loading_page)"
    and "has_class ''hidden'' 1 (run HideLoaderFallback loading_page)"
    by blast+
  moreover from loader_hidden_by_load_or_timer [of bare_page] absent
  have "run HideLoaderOnLoad bare_page = bare_page"
    and "run HideLoaderFallback bare_page = bare_page"
    by blast+
  ultimately show ?thesis using present visible absent by blast
qed

section \<open>The reveal animator\<close>

lemma revealEntry_visible:
  "has_class c n (revealEntry e s) \<longleftrightarrow>
     has_class c n s \<or> (c = ''visible'' \<and> target e = n \<and> isIntersecting e)"
  by (auto simp add: revealEntry_def has_class_def)

lemma observerCallback_visible:
  "has_class c n (observerCallback entries s) \<longleftrightarrow>
     has_class c n s \<or> (c = ''visible'' \<and> (\<exists>e \<in> set entries. target e = n \<and> isIntersecting e))"
  unfolding observerCallback_def
  by (induction entries arbitrary: s) (auto simp add: revealEntry_visible)

text \<open>
  C8. Over any run of observer callbacks, an element carries a class afterwards exactly
  when it carried it before or the class is \<^verbatim>\<open>visible\<close> and some entry of some callback
  reported the element as intersecting: the marker is added on intersection only, no
  other class is touched, and a marker once there stays, whatever the later entries say.
\<close>

theorem observer_adds_visible_only:
  "has_class c n (fold observerCallback batches s) \<longleftrightarrow>
     has_class c n s \<or>
     (c = ''visible'' \<and>
      (\<exists>entries \<in> set batches. \<exists>e \<in> set entries. target e = n \<and> isIntersecting e))"
  by (induction batches arbitrary: s) (auto simp add: observerCallback_visible)

theorem observer_adds_visible_only_witness:
  "\<not> has_class ''visible'' 0 bare_page \<and>
   has_class ''visible'' 0
     (fold observerCallback
        [[\<lparr>target = 0, isIntersecting = True\<rparr>], [\<lparr>target = 0, isIntersecting = False\<rparr>]]
        bare_page) \<and>
   \<not> has_class ''visible'' 0
     (fold observerCallback [[\<lparr>target = 0, isIntersecting = False\<rparr>]] bare_page)"
proof -
  have hidden: "\<not> has_class ''visible'' 0 bare_page"
    by code_simp
  show ?thesis
    using hidden
      observer_adds_visible_only [of "''visible''" 0
        "[[\<lparr>target = 0, isIntersecting = True\<rparr>], [\<lparr>target = 0, isIntersecting = False\<rparr>]]" bare_page]
      observer_adds_visible_only [of "''visible''" 0
        "[[\<lparr>target = 0, isIntersecting = False\<rparr>]]" bare_page]
    by simp
qed

section \<open>Page navigation\<close>

lemma switchPage_step:
  assumes "k < length (links reg)"
  shows "\<exists>s1. switchPage reg name (k, p) s = Inr s1 \<and>
           (\<forall>n. attributes (elems s1 n) = attributes (elems s n)) \<and>
           (\<forall>n. n \<noteq> p \<longrightarrow> n \<noteq> links reg ! k \<longrightarrow> elems s1 n = elems s n) \<and>
           (p \<noteq> links reg ! k \<longrightarrow>
              (has_class ''active'' p s1 \<longleftrightarrow> dataset_page (elems s p) = Some name)) \<and>
           (has_class ''active'' (links reg ! k) s1 \<longleftrightarrow> dataset_page (elems s p) = Some name) \<and>
           scrollToCalls s1 =
             scrollToCalls s @ (if dataset_page (elems s p) = Some name then [(0, 0)] else [])"
  using assms
  by (auto simp add: switchPage_def Let_def window_scrollTo_def has_class_def)

lemma switchPage_no_link:
  assumes "\<not> k < length (links reg)"
  shows "\<exists>s1. switchPage reg name (k, p) s = Inl (TypeError, s1)"
  using assms by (simp add: switchPage_def Let_def)

lemma switchPages_run:
  assumes "k + length ps \<le> length (links reg)"
    and "distinct ps" and "distinct (links reg)" and "set ps \<inter> set (links reg) = {}"
  shows "\<exists>s'. forEach (enumerate k ps) (switchPage reg name) s = Inr s' \<and>
           (\<forall>n. attributes (elems s' n) = attributes (elems s n)) \<and>
           (\<forall>n. n \<notin> set ps \<longrightarrow> n \<notin> set (drop k (links reg)) \<longrightarrow> elems s' n = elems s n) \<and>
           (\<forall>j < length ps.
              (has_class ''active'' (ps ! j) s' \<longleftrightarrow>
                 dataset_page (elems s (ps ! j)) = Some name) \<and>
              (has_class ''active'' (links reg ! (k + j)) s' \<longleftrightarrow>
                 dataset_page (elems s (ps ! j)) = Some name)) \<and>
           scrollToCalls s' =
             scrollToCalls s @
               replicate (length (filter (\<lambda>p. dataset_page (elems s p) = Some name) ps)) (0, 0)"
  using assms
proof (induction ps arbitrary: k s)
  case Nil
  then show ?case by simp
next
  case (Cons p ps)
  let ?match = "\<lambda>s q. dataset_page (elems s q) = Some name"
  from Cons.prems have k: "k < length (links reg)" by simp
  from Cons.prems have p_fresh: "p \<notin> set ps" "p \<notin> set (links reg)" by auto
  from k have lk_in: "links reg ! k \<in> set (links reg)" by simp
  with Cons.prems have lk_fresh: "links reg ! k \<notin> set ps" by auto
  from k Cons.prems(3) have lk_later: "links reg ! k \<notin> set (drop (Suc k) (links reg))"
    by (metis Cons_nth_drop_Suc distinct.simps(2) distinct_drop)
  from p_fresh(2) have p_later: "p \<notin> set (drop (Suc k) (links reg))"
    by (meson in_set_dropD)
  from p_fresh(2) lk_in have p_lk: "p \<noteq> links reg ! k" by auto
  from switchPage_step [OF k, of name p s] obtain s1 where
    step: "switchPage reg name (k, p) s = Inr s1"
    and attr1: "\<And>n. attributes (elems s1 n) = attributes (elems s n)"
    and frame1: "\<And>n. n \<noteq> p \<Longrightarrow> n \<noteq> links reg ! k \<Longrightarrow> elems s1 n = elems s n"
    and page1: "has_class ''active'' p s1 \<longleftrightarrow> ?match s p"
    and link1: "has_class ''active'' (links reg ! k) s1 \<longleftrightarrow> ?match s p"
    and scroll1: "scrollToCalls s1 = scrollToCalls s @ (if ?match s p then [(0, 0)] else [])"
    using p_lk by blast
  have match1: "\<And>q. ?match s1 q = ?match s q"
    by (simp add: dataset_page_def attr1)
  from Cons.prems have "Suc k + length ps \<le> length (links reg)" "distinct ps"
    "distinct (links reg)" "set ps \<inter> set (links reg) = {}" by auto
  from Cons.IH [OF this, of s1] obtain s' where
    run: "forEach (enumerate (Suc k) ps) (switchPage reg name) s1 = Inr s'"
    and attr: "\<And>n. attributes (elems s' n) = attributes (elems s1 n)"
    and frame: "\<And>n. n \<notin> set ps \<Longrightarrow> n \<notin> set (drop (Suc k) (links reg)) \<Longrightarrow>
                  elems s' n = elems s1 n"
    and rest: "\<And>j. j < length ps \<Longrightarrow>
                 (has_class ''active'' (ps ! j) s' \<longleftrightarrow> ?match s1 (ps ! j)) \<and>
                 (has_class ''active'' (links reg ! (Suc k + j)) s' \<longleftrightarrow> ?match s1 (ps ! j))"
    and scroll: "scrollToCalls s' =
                   scrollToCalls s1 @ replicate (length (filter (?match s1) ps)) (0, 0)"
    by blast
  have "forEach (enumerate k (p # ps)) (switchPage reg name) s = Inr s'"
    using step run by simp
  moreover have "\<forall>n. attributes (elems s' n) = attributes (elems s n)"
    by (simp add: attr attr1)
  moreover have "\<forall>n. n \<notin> set (p # ps) \<longrightarrow> n \<notin> set (drop k (links reg)) \<longrightarrow>
                   elems s' n = elems s n"
  proof (intro allI impI)
    fix n assume n: "n \<notin> set (p # ps)" "n \<notin> set (drop k (links reg))"
    from k have "drop k (links reg) = links reg ! k # drop (Suc k) (links reg)"
      by (simp add: Cons_nth_drop_Suc)
    with n have "n \<noteq> links reg ! k" "n \<notin> set (drop (Suc k) (links reg))" "n \<noteq> p" "n \<notin> set ps"
      by auto
    then show "elems s' n = elems s n"
      by (simp add: frame frame1)
  qed
  moreover have "\<forall>j < length (p # ps).
      (has_class ''active'' ((p # ps) ! j) s' \<longleftrightarrow> ?match s ((p # ps) ! j)) \<and>
      (has_class ''active'' (links reg ! (k + j)) s' \<longleftrightarrow> ?match s ((p # ps) ! j))"
  proof (intro allI impI)
    fix j assume j: "j < length (p # ps)"
    show "(has_class ''active'' ((p # ps) ! j) s' \<longleftrightarrow> ?match s ((p # ps) ! j)) \<and>
          (has_class ''active'' (links reg ! (k + j)) s' \<longleftrightarrow> ?match s ((p # ps) ! j))"
    proof (cases j)
      case 0
      have "elems s' p = elems s1 p"
        using p_fresh(1) p_later by (rule frame)
      moreover have "elems s' (links reg ! k) = elems s1 (links reg ! k)"
        using lk_fresh lk_later by (rule frame)
      ultimately show ?thesis
        using 0 page1 link1 by (simp add: has_class_def)
    next
      case (Suc i)
      with j have "i < length ps" by simp
      from rest [OF this] show ?thesis
        using Suc by (simp add: match1)
    qed
  qed
  moreover have "scrollToCalls s' =
      scrollToCalls s @ replicate (length (filter (?match s) (p # ps))) (0, 0)"
    by (simp add: scroll scroll1 match1 replicate_append_same)
  ultimately show ?case by blast
qed

text \<open>
  C2, as the code has it. The listener reads the link's \<^verbatim>\<open>innerHTML\<close>, its markup, not
  its text. The markup contract of the page switcher is that there are as many links as
  pages, link \<open>i\<close> standing for page \<open>i\<close>, all of them distinct elements. Under it, a
  click on a link whose lower-cased \<^verbatim>\<open>innerHTML\<close> is \<open>P\<close> runs to its end and leaves
  page \<open>i\<close> and link \<open>i\<close> active exactly when the \<^verbatim>\<open>data-page\<close> of page \<open>i\<close> is \<open>P\<close>. \<^verbatim>\<open>window.scrollTo(0, 0)\<close> is
  called once for each such page and not otherwise: when some page matches, the last
  scroll is to the origin; when none does, every page and every link is inactive and
  no scroll has been made.
\<close>

theorem navLink_click_activates_matching:
  assumes "length (links reg) = length (pages reg)"
    and "distinct (pages reg @ links reg)"
  shows "\<exists>s'. navLink_click reg this s = Inr s' \<and>
     (\<forall>i < length (pages reg).
        (has_class ''active'' (pages reg ! i) s' \<longleftrightarrow>
           dataset_page (elems s (pages reg ! i)) = Some (toLowerCase (innerHTML (elems s this)))) \<and>
        (has_class ''active'' (links reg ! i) s' \<longleftrightarrow>
           dataset_page (elems s (pages reg ! i)) = Some (toLowerCase (innerHTML (elems s this))))) \<and>
     ((\<exists>page \<in> set (pages reg).
         dataset_page (elems s page) = Some (toLowerCase (innerHTML (elems s this)))) \<longrightarrow>
        scrollToCalls s' \<noteq> scrollToCalls s \<and> last (scrollToCalls s') = (0, 0)) \<and>
     ((\<forall>page \<in> set (pages reg).
         dataset_page (elems s page) \<noteq> Some (toLowerCase (innerHTML (elems s this)))) \<longrightarrow>
        scrollToCalls s' = scrollToCalls s \<and>
        (\<forall>page \<in> set (pages reg). \<not> has_class ''active'' page s') \<and>
        (\<forall>link \<in> set (links reg). \<not> has_class ''active'' link s'))"
proof -
  let ?P = "toLowerCase (innerHTML (elems s this))"
  let ?match = "\<lambda>p. dataset_page (elems s p) = Some ?P"
  from assms have pre: "0 + length (pages reg) \<le> length (links reg)" "distinct (pages reg)"
    "distinct (links reg)" "set (pages reg) \<inter> set (links reg) = {}"
    by auto
  from switchPages_run [OF pre, of ?P s] obtain s' where
    run: "forEach (enumerate 0 (pages reg)) (switchPage reg ?P) s = Inr s'"
    and cls: "\<And>j. j < length (pages reg) \<Longrightarrow>
                (has_class ''active'' (pages reg ! j) s' \<longleftrightarrow> ?match (pages reg ! j)) \<and>
                (has_class ''active'' (links reg ! j) s' \<longleftrightarrow> ?match (pages reg ! j))"
    and scroll: "scrollToCalls s' =
                   scrollToCalls s @ replicate (length (filter ?match (pages reg))) (0, 0)"
    by auto
  have click: "navLink_click reg this s = Inr s'"
    using run by (simp add: navLink_click_def)
  have some: "scrollToCalls s' \<noteq> scrollToCalls s \<and> last (scrollToCalls s') = (0, 0)"
    if "\<exists>page \<in> set (pages reg). ?match page"
  proof -
    from that have "filter ?match (pages reg) \<noteq> []"
      by (simp add: filter_empty_conv)
    then have pos: "0 < length (filter ?match (pages reg))"
      by simp
    then have "last (replicate (length (filter ?match (pages reg))) (0::int, 0::int)) = (0, 0)"
      by (cases "length (filter ?match (pages reg))") simp_all
    with pos show ?thesis
      unfolding scroll by simp
  qed
  have none: "scrollToCalls s' = scrollToCalls s \<and>
              (\<forall>page \<in> set (pages reg). \<not> has_class ''active'' page s') \<and>
              (\<forall>link \<in> set (links reg). \<not> has_class ''active'' link s')"
    if no: "\<forall>page \<in> set (pages reg). \<not> ?match page"
  proof -
    from no have "filter ?match (pages reg) = []"
      by (simp add: filter_empty_conv)
    then have "scrollToCalls s' = scrollToCalls s"
      by (simp add: scroll)
    moreover have "\<not> has_class ''active'' page s'" if "page \<in> set (pages reg)" for page
    proof -
      from that obtain j where "j < length (pages reg)" "pages reg ! j = page"
        by (auto simp add: in_set_conv_nth)
      with cls [of j] no show ?thesis by auto
    qed
    moreover have "\<not> has_class ''active'' link s'" if "link \<in> set (links reg)" for link
    proof -
      from that obtain j where "j < length (links reg)" "links reg ! j = link"
        by (auto simp add: in_set_conv_nth)
      with cls [of j] no assms(1) show ?thesis by auto
    qed
    ultimately show ?thesis by blast
  qed
  from click cls some none show ?thesis by blast
qed

lemma nav_registry: "nav = \<lparr> links = [0, 1, 2], pages = [3, 4, 5] \<rparr>"
  by code_simp

lemma nav_texts:
  "toLowerCase (innerHTML (elems nav_page 1)) = ''resume''"
  "toLowerCase (innerHTML (elems nav_page 2)) = ''blog''"
  by code_simp+

lemma nav_data_pages:
  "dataset_page (elems nav_page 3) = Some ''about''"
  "dataset_page (elems nav_page 4) = Some ''resume''"
  "dataset_page (elems nav_page 5) = Some ''portfolio''"
  by code_simp+

lemma nav_nodes:
  "pages nav ! 0 = 3" "pages nav ! Suc 0 = 4" "links nav ! 0 = 0" "links nav ! Suc 0 = Suc 0"
  "length (pages nav) = 3" "set (pages nav) = {3, 4, 5}"
  by (simp_all add: nav_registry)

text \<open>
  The text of the link, \<^verbatim>\<open>R&D\<close>, lower-cased, is the identifier of the page; its markup
  is \<^verbatim>\<open>R&amp;D\<close>, and a click on it leaves the page and the link inactive, without a
  scroll.
\<close>

theorem navLink_click_text_counterexample:
  "links research_nav = [0] \<and> pages research_nav = [1] \<and>
   toLowerCase (innerText (elems research_page 0)) = ''r&d'' \<and>
   dataset_page (elems research_page 1) = Some ''r&d'' \<and>
   toLowerCase (innerHTML (elems research_page 0)) = ''r&amp;d'' \<and>
   \<not> has_class ''active'' 1 (final (navLink_click research_nav 0 research_page)) \<and>
   \<not> has_class ''active'' 0 (final (navLink_click research_nav 0 research_page)) \<and>
   scrollToCalls (final (navLink_click research_nav 0 research_page)) = []"
  by code_simp

lemma etudes_registry: "etudes_nav = \<lparr> links = [0, 2], pages = [1, 3] \<rparr>"
  by code_simp

lemma etudes_facts:
  "toLowerCase (innerHTML (elems etudes_page 2)) = CHR 0xE9 # ''tudes''"
  "dataset_page (elems etudes_page (Suc 0)) = Some ''accueil''"
  "dataset_page (elems etudes_page 3) = Some (CHR 0xE9 # ''tudes'')"
  by code_simp+

lemma etudes_nodes:
  "pages etudes_nav ! 0 = Suc 0" "pages etudes_nav ! Suc 0 = 3"
  "links etudes_nav ! 0 = 0" "links etudes_nav ! Suc 0 = 2"
  "length (pages etudes_nav) = 2" "set (pages etudes_nav) = {Suc 0, 3}"
  by (simp_all add: etudes_registry)

theorem navLink_click_activates_matching_witness:
  "length (links nav) = length (pages nav) \<and> distinct (pages nav @ links nav) \<and>
   has_class ''active'' 4 (final (navLink_click nav 1 nav_page)) \<and>
   has_class ''active'' 1 (final (navLink_click nav 1 nav_page)) \<and>
   \<not> has_class ''active'' 3 (final (navLink_click nav 1 nav_page)) \<and>
   \<not> has_class ''active'' 0 (final (navLink_click nav 1 nav_page)) \<and>
   last (scrollToCalls (final (navLink_click nav 1 nav_page))) = (0, 0) \<and>
   \<not> has_class ''active'' 3 (final (navLink_click nav 2 nav_page)) \<and>
   \<not> has_class ''active'' 0 (final (navLink_click nav 2 nav_page)) \<and>
   scrollToCalls (final (navLink_click nav 2 nav_page)) = scrollToCalls nav_page \<and>
   length (links etudes_nav) = length (pages etudes_nav) \<and>
   distinct (pages etudes_nav @ links etudes_nav) \<and>
   has_class ''active'' 3 (final (navLink_click etudes_nav 2 etudes_page)) \<and>
   has_class ''active'' 2 (final (navLink_click etudes_nav 2 etudes_page)) \<and>
   \<not> has_class ''active'' 0 (final (navLink_click etudes_nav 2 etudes_page)) \<and>
   last (scrollToCalls (final (navLink_click etudes_nav 2 etudes_page))) = (0, 0)"
proof -
  have len: "length (links nav) = length (pages nav)"
    and dist: "distinct (pages nav @ links nav)"
    by (simp_all add: nav_registry)
  from navLink_click_activates_matching [OF len dist, of 1 nav_page] obtain s' where
    run: "navLink_click nav 1 nav_page = Inr s'"
    and cls: "\<And>i. i < length (pages nav) \<Longrightarrow>
        (has_class ''active'' (pages nav ! i) s' \<longleftrightarrow>
           dataset_page (elems nav_page (pages nav ! i)) = Some ''resume'') \<and>
        (has_class ''active'' (links nav ! i) s' \<longleftrightarrow>
           dataset_page (elems nav_page (pages nav ! i)) = Some ''resume'')"
    and scroll: "(\<exists>page \<in> set (pages nav). dataset_page (elems nav_page page) = Some ''resume'')
        \<longrightarrow> scrollToCalls s' \<noteq> scrollToCalls nav_page \<and> last (scrollToCalls s') = (0, 0)"
    unfolding nav_texts by blast
  have fin: "final (navLink_click nav 1 nav_page) = s'"
    using run by (rule final_Inr)
  have resume: "has_class ''active'' 4 s' \<and> has_class ''active'' 1 s' \<and>
      \<not> has_class ''active'' 3 s' \<and> \<not> has_class ''active'' 0 s' \<and>
      last (scrollToCalls s') = (0, 0)"
    using cls [of 0] cls [of 1] scroll
    by (simp add: nav_nodes nav_data_pages)
  from navLink_click_activates_matching [OF len dist, of 2 nav_page] obtain t' where
    run2: "navLink_click nav 2 nav_page = Inr t'"
    and none: "(\<forall>page \<in> set (pages nav). dataset_page (elems nav_page page) \<noteq> Some ''blog'')
        \<longrightarrow> scrollToCalls t' = scrollToCalls nav_page \<and>
            (\<forall>page \<in> set (pages nav). \<not> has_class ''active'' page t') \<and>
            (\<forall>link \<in> set (links nav). \<not> has_class ''active'' link t')"
    unfolding nav_texts by blast
  have fin2: "final (navLink_click nav 2 nav_page) = t'"
    using run2 by (rule final_Inr)
  have blog: "\<not> has_class ''active'' 3 t' \<and> \<not> has_class ''active'' 0 t' \<and>
      scrollToCalls t' = scrollToCalls nav_page"
    using none by (simp add: nav_registry nav_data_pages)
  have len3: "length (links etudes_nav) = length (pages etudes_nav)"
    and dist3: "distinct (pages etudes_nav @ links etudes_nav)"
    by (simp_all add: etudes_registry)
  from navLink_click_activates_matching [OF len3 dist3, of 2 etudes_page] obtain u' where
    run3: "navLink_click etudes_nav 2 etudes_page = Inr u'"
    and cls3: "\<And>i. i < length (pages etudes_nav) \<Longrightarrow>
        (has_class ''active'' (pages etudes_nav ! i) u' \<longleftrightarrow>
           dataset_page (elems etudes_page (pages etudes_nav ! i)) = Some (CHR 0xE9 # ''tudes'')) \<and>
        (has_class ''active'' (links etudes_nav ! i) u' \<longleftrightarrow>
           dataset_page (elems etudes_page (pages etudes_nav ! i)) = Some (CHR 0xE9 # ''tudes''))"
    and scroll3: "(\<exists>page \<in> set (pages etudes_nav).
          dataset_page (elems etudes_page page) = Some (CHR 0xE9 # ''tudes''))
        \<longrightarrow> scrollToCalls u' \<noteq> scrollToCalls etudes_page \<and> last (scrollToCalls u') = (0, 0)"
    unfolding etudes_facts(1) by blast
  have fin3: "final (navLink_click etudes_nav 2 etudes_page) = u'"
    using run3 by (rule final_Inr)
  have etudes: "has_class ''active'' 3 u' \<and> has_class ''active'' 2 u' \<and>
      \<not> has_class ''active'' 0 u' \<and> last (scrollToCalls u') = (0, 0)"
    using cls3 [of 0] cls3 [of 1] scroll3
    by (simp add: etudes_nodes etudes_facts)
  from len dist resume blog len3 dist3 etudes show ?thesis
    unfolding fin fin2 fin3 by blast
qed

section \<open>The two filter surfaces\<close>

lemma filterByCategory_other:
  "n \<notin> set (filterItems reg) \<Longrightarrow> elems (filterByCategory reg v s) n = elems s n"
  by (simp add: filterByCategory_def fold_filterItem_other)

lemma filterItem_innerText: "innerText (elems (filterItem v x s) n) = innerText (elems s n)"
  by (simp add: filterItem_def)

lemma fold_filterItem_innerText:
  "innerText (elems (fold (filterItem v) xs s) n) = innerText (elems s n)"
  by (induction xs arbitrary: s) (simp_all add: filterItem_innerText)

lemma filterByCategory_innerText:
  "innerText (elems (filterByCategory reg v s) n) = innerText (elems s n)"
  by (simp add: filterByCategory_def fold_filterItem_innerText)

lemma filterItem_activeFilterBtn: "activeFilterBtn (filterItem v x s) = activeFilterBtn s"
  by (simp add: filterItem_def)

lemma fold_filterItem_activeFilterBtn:
  "activeFilterBtn (fold (filterItem v) xs s) = activeFilterBtn s"
  by (induction xs arbitrary: s) (simp_all add: filterItem_activeFilterBtn)

lemma filterByCategory_activeFilterBtn:
  "activeFilterBtn (filterByCategory reg v s) = activeFilterBtn s"
  by (simp add: filterByCategory_def fold_filterItem_activeFilterBtn)


lemma selectItem_click_run:
  assumes "selectValue reg = Some label" and "select reg = Some sel"
  shows "selectItem_click reg this s =
           Inr (filterByCategory reg (toLowerCase (innerText (elems s this)))
                  (update sel (classList_update (toggle ''active''))
                     (update label (innerText_update (\<lambda>_. innerText (elems s this))) s)))"
  using assms
  by (simp add: selectItem_click_def assign_def toggleElementActive_def classList_toggle_def
      andThen_def)

lemma selectItem_click_keeps_classes:
  assumes "b \<notin> set (filterItems reg)" and "select reg \<noteq> Some b"
  shows "classList (elems (final (selectItem_click reg this s)) b) = classList (elems s b)"
proof (cases "selectValue reg")
  case None
  then show ?thesis
    by (simp add: selectItem_click_def assign_def andThen_def final_def)
next
  case label: (Some label)
  show ?thesis
  proof (cases "select reg")
    case None
    with label show ?thesis
      by (simp add: selectItem_click_def assign_def toggleElementActive_def classList_toggle_def
          andThen_def final_def)
  next
    case (Some sel)
    with assms(2) have "b \<noteq> sel" by auto
    then show ?thesis
      using assms(1) by (simp add: selectItem_click_run [OF label Some] final_def
          filterByCategory_other)
  qed
qed

lemma filterBtn_click_run:
  assumes "selectValue reg = Some label" and "activeFilterBtn s = Some prev"
  shows "filterBtn_click reg this s =
           Inr ((update this (classList_update (add ''active''))
                  (update prev (classList_update (remove ''active''))
                     (filterByCategory reg (toLowerCase (innerText (elems s this)))
                        (update label (innerText_update (\<lambda>_. innerText (elems s this))) s))))
                \<lparr>activeFilterBtn := Some this\<rparr>)"
  using assms
  by (simp add: filterBtn_click_def assign_def andThen_def Let_def
      filterByCategory_activeFilterBtn)

lemma filterBtn_click_label:
  assumes "selectValue reg = Some label"
  shows "innerText (elems (final (filterBtn_click reg this s)) label) = innerText (elems s this)"
proof (cases "activeFilterBtn s")
  case None
  then show ?thesis
    using assms
    by (simp add: filterBtn_click_def assign_def andThen_def Let_def final_def
        filterByCategory_activeFilterBtn filterByCategory_innerText)
next
  case (Some prev)
  show ?thesis
    by (simp add: filterBtn_click_run [OF assms Some] final_def filterByCategory_innerText)
qed

text \<open>
  C3, as the code has it. A click on a dropdown option leaves the class list, and so the
  highlight, of every filter button as it was (a filter button being neither the select
  button nor a filter item), whether or not the listener runs to its end. A click on a
  filter button does write the dropdown's label: the label shows the text of the
  clicked button afterwards.
\<close>

theorem filter_surfaces_coupling:
  "(\<forall>btn \<in> set (filterBtns reg).
      btn \<notin> set (filterItems reg) \<longrightarrow> select reg \<noteq> Some btn \<longrightarrow>
        (has_class ''active'' btn (final (selectItem_click reg option s)) \<longleftrightarrow>
           has_class ''active'' btn s)) \<and>
   (\<forall>label. selectValue reg = Some label \<longrightarrow>
      innerText (elems (final (filterBtn_click reg btn' s)) label) = innerText (elems s btn'))"
  by (simp add: has_class_def selectItem_click_keeps_classes filterBtn_click_label)

lemma portfolio_elements:
  "portfolio = \<lparr> select = Some 0, selectItems = [2, 3], selectValue = Some 1,
                 filterBtns = [4, 5, 6], filterItems = [7, 8, 9] \<rparr>"
  by code_simp

lemma portfolio_ready_highlight:
  "activeFilterBtn portfolio_ready = Some 4"
  "has_class ''active'' 4 portfolio_ready"
  "\<not> has_class ''active'' 5 portfolio_ready"
  "\<not> has_class ''active'' 6 portfolio_ready"
  by code_simp+

text \<open>
  On the portfolio page the label reads \<open>Select category\<close>; after a click on the filter
  button \<open>Web\<close> it reads \<open>Web\<close>: the click on a filter button changed the dropdown's
  label.
\<close>

theorem filter_surfaces_unsynchronized_counterexample:
  "filterBtns portfolio = [4, 5, 6] \<and> selectValue portfolio = Some 1 \<and>
   innerText (elems portfolio_ready 1) = ''Select category'' \<and>
   innerText (elems (final (filterBtn_click portfolio 5 portfolio_ready)) 1) = ''Web''"
  by code_simp

theorem filter_surfaces_coupling_witness:
  "4 \<in> set (filterBtns portfolio) \<and> 4 \<notin> set (filterItems portfolio) \<and>
   select portfolio \<noteq> Some 4 \<and> selectValue portfolio = Some 1 \<and>
   has_class ''active'' 4 portfolio_ready \<and>
   has_class ''active'' 4 (final (selectItem_click portfolio 3 portfolio_ready)) \<and>
   innerText (elems portfolio_ready 5) = ''Web'' \<and>
   innerText (elems (final (filterBtn_click portfolio 5 portfolio_ready)) 1) = ''Web''"
proof -
  have btn: "4 \<in> set (filterBtns portfolio)" "4 \<notin> set (filterItems portfolio)"
    "select portfolio \<noteq> Some 4" and label: "selectValue portfolio = Some 1"
    by (simp_all add: portfolio_elements)
  have web: "innerText (elems portfolio_ready 5) = ''Web''"
    by code_simp
  from filter_surfaces_coupling [of portfolio 3 portfolio_ready 5] btn label
  have "has_class ''active'' 4 (final (selectItem_click portfolio 3 portfolio_ready)) \<longleftrightarrow>
          has_class ''active'' 4 portfolio_ready"
    and "innerText (elems (final (filterBtn_click portfolio 5 portfolio_ready)) 1) =
          innerText (elems portfolio_ready 5)"
    by blast+
  with btn label web portfolio_ready_highlight(2) show ?thesis by simp
qed

section \<open>The highlighted filter button\<close>

lemma filterBtn_click_moves_marker:
  assumes "selectValue reg = Some label" and "activeFilterBtn s = Some prev"
  shows "\<exists>s'. filterBtn_click reg this s = Inr s' \<and>
           has_class ''active'' this s' \<and>
           (prev \<noteq> this \<longrightarrow> \<not> has_class ''active'' prev s') \<and>
           activeFilterBtn s' = Some this \<and>
           (\<forall>b. b \<noteq> this \<longrightarrow> b \<noteq> prev \<longrightarrow> b \<notin> set (filterItems reg) \<longrightarrow>
              (has_class ''active'' b s' \<longleftrightarrow> has_class ''active'' b s))"
  by (simp add: filterBtn_click_run [OF assms] has_class_def filterByCategory_other)

lemma filterBtn_click_highlighted_only:
  assumes "selectValue reg = Some label"
    and "set (filterBtns reg) \<inter> set (filterItems reg) = {}"
    and "highlighted_only reg a s"
  shows "highlighted_only reg c (final (filterBtn_click reg c s))"
proof -
  from assms(3) have act: "activeFilterBtn s = Some a"
    and only: "\<And>b. b \<in> set (filterBtns reg) \<Longrightarrow> has_class ''active'' b s \<longleftrightarrow> b = a"
    by (simp_all add: highlighted_only_def)
  from filterBtn_click_moves_marker [OF assms(1) act, of c] obtain s' where
    run: "filterBtn_click reg c s = Inr s'"
    and clicked: "has_class ''active'' c s'"
    and prev: "a \<noteq> c \<Longrightarrow> \<not> has_class ''active'' a s'"
    and tracked: "activeFilterBtn s' = Some c"
    and others: "\<And>b. b \<noteq> c \<Longrightarrow> b \<noteq> a \<Longrightarrow> b \<notin> set (filterItems reg) \<Longrightarrow>
                   has_class ''active'' b s' \<longleftrightarrow> has_class ''active'' b s"
    by blast
  have "has_class ''active'' b s' \<longleftrightarrow> b = c" if b: "b \<in> set (filterBtns reg)" for b
  proof (cases "b = c")
    case True
    with clicked show ?thesis by simp
  next
    case False
    show ?thesis
    proof (cases "b = a")
      case True
      with False prev show ?thesis by auto
    next
      case neq: False
      from b assms(2) have "b \<notin> set (filterItems reg)" by auto
      with False neq others [of b] only [OF b] show ?thesis by simp
    qed
  qed
  with tracked run show ?thesis
    by (simp add: highlighted_only_def final_def)
qed

lemma filterBtn_clicks_highlighted_only:
  assumes "selectValue reg = Some label"
    and "set (filterBtns reg) \<inter> set (filterItems reg) = {}"
  shows "highlighted_only reg a s \<Longrightarrow>
         highlighted_only reg (last (a # clicks)) (filterBtn_clicks reg clicks s)"
proof (induction clicks arbitrary: a s)
  case Nil
  then show ?case by (simp add: filterBtn_clicks_def)
next
  case (Cons c clicks)
  from filterBtn_click_highlighted_only [OF assms Cons.prems, of c]
  have "highlighted_only reg c (final (filterBtn_click reg c s))" .
  from Cons.IH [OF this] show ?case
    by (simp add: filterBtn_clicks_def)
qed

lemma initFiltering_run:
  assumes "initFiltering reg s0 = Inr s" and "filterBtns reg = first # others"
  shows "activeFilterBtn s = Some first" and "elems s = elems s0"
  using assms by (auto simp add: initFiltering_def split: option.splits)

text \<open>
  C4, as the code has it. The select label being in the registry and no filter button
  being a filter item: if, when \<^verbatim>\<open>initFiltering\<close> has run, the first filter button, and
  only it, holds the marker \<^verbatim>\<open>active\<close>, then after any one or more clicks on filter
  buttons the button clicked last, and only it, holds the marker, and it is the tracked
  one. Each click on its own runs to its end, leaves the clicked button with the marker
  and the button tracked before, when it is another one, without it, and tracks the
  clicked button.
\<close>

theorem filterBtn_clicks_single_highlight:
  assumes "initFiltering reg s0 = Inr s"
    and "filterBtns reg = first # others"
    and "\<forall>b \<in> set (filterBtns reg). has_class ''active'' b s \<longleftrightarrow> b = first"
    and "selectValue reg = Some label"
    and "set (filterBtns reg) \<inter> set (filterItems reg) = {}"
    and "clicks \<noteq> []" and "set clicks \<subseteq> set (filterBtns reg)"
  shows "last clicks \<in> set (filterBtns reg) \<and>
         (\<forall>b \<in> set (filterBtns reg).
            has_class ''active'' b (filterBtn_clicks reg clicks s) \<longleftrightarrow> b = last clicks) \<and>
         activeFilterBtn (filterBtn_clicks reg clicks s) = Some (last clicks) \<and>
         (\<forall>t prev this. activeFilterBtn t = Some prev \<longrightarrow>
            (\<exists>t'. filterBtn_click reg this t = Inr t' \<and>
                   has_class ''active'' this t' \<and>
                   (prev \<noteq> this \<longrightarrow> \<not> has_class ''active'' prev t') \<and>
                   activeFilterBtn t' = Some this))"
proof -
  from initFiltering_run(1) [OF assms(1,2)] assms(3) have "highlighted_only reg first s"
    by (simp add: highlighted_only_def)
  from filterBtn_clicks_highlighted_only [OF assms(4,5) this, of clicks] assms(6)
  have "highlighted_only reg (last clicks) (filterBtn_clicks reg clicks s)"
    by simp
  then have "\<forall>b \<in> set (filterBtns reg).
               has_class ''active'' b (filterBtn_clicks reg clicks s) \<longleftrightarrow> b = last clicks"
    and "activeFilterBtn (filterBtn_clicks reg clicks s) = Some (last clicks)"
    by (simp_all add: highlighted_only_def)
  moreover have "\<forall>t prev this. activeFilterBtn t = Some prev \<longrightarrow>
            (\<exists>t'. filterBtn_click reg this t = Inr t' \<and>
                   has_class ''active'' this t' \<and>
                   (prev \<noteq> this \<longrightarrow> \<not> has_class ''active'' prev t') \<and>
                   activeFilterBtn t' = Some this)"
    using filterBtn_click_moves_marker [OF assms(4)] by blast
  moreover from assms(6,7) have "last clicks \<in> set (filterBtns reg)"
    using last_in_set by blast
  ultimately show ?thesis by blast
qed

text \<open>
  When the markup highlights the third button as well as the first, the first button
  does hold the marker, and after one click on the second button two buttons hold it:
  the second and the third.
\<close>

theorem filterBtn_clicks_two_highlights_counterexample:
  "filterBtns portfolio = [4, 5, 6] \<and>
   activeFilterBtn two_highlights_ready = Some 4 \<and>
   has_class ''active'' 4 two_highlights_ready \<and>
   has_class ''active'' 5 (filterBtn_clicks portfolio [5] two_highlights_ready) \<and>
   has_class ''active'' 6 (filterBtn_clicks portfolio [5] two_highlights_ready)"
  by code_simp

lemma portfolio_initialized: "initFiltering portfolio portfolio_page = Inr portfolio_ready"
  by (simp add: portfolio_ready_def initFiltering_def portfolio_elements final_def)

theorem filterBtn_clicks_single_highlight_witness:
  "initFiltering portfolio portfolio_page = Inr portfolio_ready \<and>
   filterBtns portfolio = [4, 5, 6] \<and>
   has_class ''active'' 4 portfolio_ready \<and>
   \<not> has_class ''active'' 5 portfolio_ready \<and>
   \<not> has_class ''active'' 6 portfolio_ready \<and>
   selectValue portfolio = Some 1 \<and>
   set (filterBtns portfolio) \<inter> set (filterItems portfolio) = {} \<and>
   \<not> has_class ''active'' 4 (filterBtn_clicks portfolio [5, 6, 5] portfolio_ready) \<and>
   has_class ''active'' 5 (filterBtn_clicks portfolio [5, 6, 5] portfolio_ready) \<and>
   \<not> has_class ''active'' 6 (filterBtn_clicks portfolio [5, 6, 5] portfolio_ready) \<and>
   activeFilterBtn (filterBtn_clicks portfolio [5, 6, 5] portfolio_ready) = Some 5"
proof -
  have label: "selectValue portfolio = Some 1"
    and apart: "set (filterBtns portfolio) \<inter> set (filterItems portfolio) = {}"
    and btns: "filterBtns portfolio = 4 # [5, 6]"
    by (simp_all add: portfolio_elements)
  have only: "\<forall>b \<in> set (filterBtns portfolio). has_class ''active'' b portfolio_ready \<longleftrightarrow> b = 4"
    by (simp add: portfolio_elements portfolio_ready_highlight)
  have clicks: "[5, 6, 5] \<noteq> ([]::node list)" "set [5, 6, 5] \<subseteq> set (filterBtns portfolio)"
    by (simp_all add: portfolio_elements)
  from filterBtn_clicks_single_highlight [OF portfolio_initialized btns only label apart clicks]
  have "\<forall>b \<in> set (filterBtns portfolio).
          has_class ''active'' b (filterBtn_clicks portfolio [5, 6, 5] portfolio_ready) \<longleftrightarrow>
            b = last [5, 6, 5]"
    and "activeFilterBtn (filterBtn_clicks portfolio [5, 6, 5] portfolio_ready) =
           Some (last [5, 6, 5])"
    by blast+
  then have "\<not> has_class ''active'' 4 (filterBtn_clicks portfolio [5, 6, 5] portfolio_ready) \<and>
      has_class ''active'' 5 (filterBtn_clicks portfolio [5, 6, 5] portfolio_ready) \<and>
      \<not> has_class ''active'' 6 (filterBtn_clicks portfolio [5, 6, 5] portfolio_ready) \<and>
      activeFilterBtn (filterBtn_clicks portfolio [5, 6, 5] portfolio_ready) = Some 5"
    by (simp add: portfolio_elements)
  with label apart btns portfolio_initialized portfolio_ready_highlight show ?thesis by simp
qed

section \<open>The technologies modal\<close>

lemma querySelector_within_update:
  assumes "\<And>e. attributes (f e) = attributes e" and "\<And>e. descendants (f e) = descendants e"
  shows "querySelector_within this a (update n f s) = querySelector_within this a s"
proof -
  have "(\<lambda>m. hasAttribute a (elems (update n f s) m)) = (\<lambda>m. hasAttribute a (elems s m))"
    by (intro ext) (simp add: hasAttribute_def assms)
  then show ?thesis
    by (simp add: querySelector_within_def assms)
qed

lemma toggleModal_run:
  assumes "container (modal reg) = Some mc" and "overlay reg = Some ov"
  shows "toggleModal reg s =
           Inr (update ov (classList_update (toggle ''active''))
                  (update mc (classList_update (toggle ''active'')) s))"
  using assms by (simp add: toggleModal_def classList_toggle_def andThen_def)

lemma assign_run:
  "assign (Some t) put (Some r) get s = Inr (update t (put (get (elems s r))) s)"
  by (simp add: assign_def)

lemma technologiesItem_click_run:
  assumes "image (modal reg) = Some mi" and "title (modal reg) = Some mt"
    and "text_el (modal reg) = Some mx"
    and "container (modal reg) = Some mc" and "overlay reg = Some ov"
    and "querySelector_within this ''data-technologies-avatar'' s = Some av"
    and "querySelector_within this ''data-technologies-title'' s = Some ti"
    and "querySelector_within this ''data-technologies-text'' s = Some tx"
    and "mt \<noteq> mx" and "tx \<noteq> mt" and "mc \<noteq> ov"
  shows "\<exists>s'. technologiesItem_click reg this s = Inr s' \<and>
           src (elems s' mi) = src (elems s av) \<and>
           alt (elems s' mi) = alt (elems s av) \<and>
           innerHTML (elems s' mt) = innerHTML (elems s ti) \<and>
           innerHTML (elems s' mx) = innerHTML (elems s tx) \<and>
           (has_class ''active'' mc s' \<longleftrightarrow> \<not> has_class ''active'' mc s) \<and>
           (has_class ''active'' ov s' \<longleftrightarrow> \<not> has_class ''active'' ov s)"
proof -
  define s1 where "s1 = update mi (src_update (\<lambda>_. src (elems s av))) s"
  define s2 where "s2 = update mi (alt_update (\<lambda>_. alt (elems s1 av))) s1"
  define s3 where "s3 = update mt (innerHTML_update (\<lambda>_. innerHTML (elems s2 ti))) s2"
  define s4 where "s4 = update mx (innerHTML_update (\<lambda>_. innerHTML (elems s3 tx))) s3"
  define s5 where "s5 = update ov (classList_update (toggle ''active''))
                          (update mc (classList_update (toggle ''active'')) s4)"
  have q1: "querySelector_within this a s1 = querySelector_within this a s" for a
    unfolding s1_def by (rule querySelector_within_update) simp_all
  have q2: "querySelector_within this a s2 = querySelector_within this a s" for a
    unfolding s2_def by (simp add: querySelector_within_update q1)
  have q3: "querySelector_within this a s3 = querySelector_within this a s" for a
    unfolding s3_def by (simp add: querySelector_within_update q2)
  have "technologiesItem_click reg this s = Inr s5"
    unfolding technologiesItem_click_def
    by (simp only: assms(1-8) assign_run andThen_def sum.case q1 q2 q3
        s1_def [symmetric] s2_def [symmetric] s3_def [symmetric] s4_def [symmetric]
        toggleModal_run [OF assms(4,5)] s5_def [symmetric])
  moreover have "src (elems s5 mi) = src (elems s av)"
    by (simp add: s5_def s4_def s3_def s2_def s1_def)
  moreover have "alt (elems s5 mi) = alt (elems s av)"
    by (simp add: s5_def s4_def s3_def s2_def s1_def)
  moreover have "innerHTML (elems s5 mt) = innerHTML (elems s ti)"
    using assms(9) by (simp add: s5_def s4_def s3_def s2_def s1_def)
  moreover have "innerHTML (elems s5 mx) = innerHTML (elems s tx)"
    using assms(10) by (simp add: s5_def s4_def s3_def s2_def s1_def)
  moreover have "has_class ''active'' mc s5 \<longleftrightarrow> \<not> has_class ''active'' mc s"
    using assms(11) by (simp add: has_class_def s5_def s4_def s3_def s2_def s1_def)
  moreover have "has_class ''active'' ov s5 \<longleftrightarrow> \<not> has_class ''active'' ov s"
    using assms(11) by (simp add: has_class_def s5_def s4_def s3_def s2_def s1_def)
  ultimately show ?thesis by blast
qed

lemma modalClose_click_run:
  assumes "container (modal reg) = Some mc" and "overlay reg = Some ov" and "mc \<noteq> ov"
  shows "\<exists>s'. modalClose_click reg s = Inr s' \<and>
           (has_class ''active'' mc s' \<longleftrightarrow> \<not> has_class ''active'' mc s) \<and>
           (has_class ''active'' ov s' \<longleftrightarrow> \<not> has_class ''active'' ov s) \<and>
           (\<forall>n. src (elems s' n) = src (elems s n) \<and> alt (elems s' n) = alt (elems s n) \<and>
                innerHTML (elems s' n) = innerHTML (elems s n))"
  using assms
  by (simp add: modalClose_click_def toggleModal_run has_class_def)

text \<open>
  C5, as the code has it. With the modal's parts and the overlay in the registry, the
  item's avatar, title and text found below it, and the elements written being distinct
  from each other: a click on a technology item runs to its end, leaves the modal image
  with the avatar's \<^verbatim>\<open>src\<close> and \<^verbatim>\<open>alt\<close> and the modal title and text with the item's title
  and text markup, and toggles the marker \<^verbatim>\<open>active\<close> on the container and on the
  overlay, so that both carry it afterwards when neither did before. A click on the close
  button or on the overlay toggles both markers again, so that neither carries it
  afterwards when both did before, and changes no \<^verbatim>\<open>src\<close>, \<^verbatim>\<open>alt\<close> or markup.
\<close>

theorem modal_open_close_toggle:
  assumes "image (modal reg) = Some mi" and "title (modal reg) = Some mt"
    and "text_el (modal reg) = Some mx"
    and "container (modal reg) = Some mc" and "overlay reg = Some ov"
    and "querySelector_within this ''data-technologies-avatar'' s = Some av"
    and "querySelector_within this ''data-technologies-title'' s = Some ti"
    and "querySelector_within this ''data-technologies-text'' s = Some tx"
    and "mt \<noteq> mx" and "tx \<noteq> mt" and "mc \<noteq> ov"
  shows "(\<exists>s'. technologiesItem_click reg this s = Inr s' \<and>
            src (elems s' mi) = src (elems s av) \<and>
            alt (elems s' mi) = alt (elems s av) \<and>
            innerHTML (elems s' mt) = innerHTML (elems s ti) \<and>
            innerHTML (elems s' mx) = innerHTML (elems s tx) \<and>
            (has_class ''active'' mc s' \<longleftrightarrow> \<not> has_class ''active'' mc s) \<and>
            (has_class ''active'' ov s' \<longleftrightarrow> \<not> has_class ''active'' ov s) \<and>
            (\<not> has_class ''active'' mc s \<and> \<not> has_class ''active'' ov s \<longrightarrow>
               has_class ''active'' mc s' \<and> has_class ''active'' ov s')) \<and>
         (\<forall>t. \<exists>t'. modalClose_click reg t = Inr t' \<and>
            (has_class ''active'' mc t' \<longleftrightarrow> \<not> has_class ''active'' mc t) \<and>
            (has_class ''active'' ov t' \<longleftrightarrow> \<not> has_class ''active'' ov t) \<and>
            (has_class ''active'' mc t \<and> has_class ''active'' ov t \<longrightarrow>
               \<not> has_class ''active'' mc t' \<and> \<not> has_class ''active'' ov t') \<and>
            (\<forall>n. src (elems t' n) = src (elems t n) \<and> alt (elems t' n) = alt (elems t n) \<and>
                 innerHTML (elems t' n) = innerHTML (elems t n)))"
proof -
  from technologiesItem_click_run [OF assms] obtain s' where
    "technologiesItem_click reg this s = Inr s'"
    "src (elems s' mi) = src (elems s av)" "alt (elems s' mi) = alt (elems s av)"
    "innerHTML (elems s' mt) = innerHTML (elems s ti)"
    "innerHTML (elems s' mx) = innerHTML (elems s tx)"
    "has_class ''active'' mc s' \<longleftrightarrow> \<not> has_class ''active'' mc s"
    "has_class ''active'' ov s' \<longleftrightarrow> \<not> has_class ''active'' ov s"
    by blast
  then have opens: "\<exists>s'. technologiesItem_click reg this s = Inr s' \<and>
            src (elems s' mi) = src (elems s av) \<and>
            alt (elems s' mi) = alt (elems s av) \<and>
            innerHTML (elems s' mt) = innerHTML (elems s ti) \<and>
            innerHTML (elems s' mx) = innerHTML (elems s tx) \<and>
            (has_class ''active'' mc s' \<longleftrightarrow> \<not> has_class ''active'' mc s) \<and>
            (has_class ''active'' ov s' \<longleftrightarrow> \<not> has_class ''active'' ov s) \<and>
            (\<not> has_class ''active'' mc s \<and> \<not> has_class ''active'' ov s \<longrightarrow>
               has_class ''active'' mc s' \<and> has_class ''active'' ov s')"
    by blast
  have closes: "\<exists>t'. modalClose_click reg t = Inr t' \<and>
            (has_class ''active'' mc t' \<longleftrightarrow> \<not> has_class ''active'' mc t) \<and>
            (has_class ''active'' ov t' \<longleftrightarrow> \<not> has_class ''active'' ov t) \<and>
            (has_class ''active'' mc t \<and> has_class ''active'' ov t \<longrightarrow>
               \<not> has_class ''active'' mc t' \<and> \<not> has_class ''active'' ov t') \<and>
            (\<forall>n. src (elems t' n) = src (elems t n) \<and> alt (elems t' n) = alt (elems t n) \<and>
                 innerHTML (elems t' n) = innerHTML (elems t n))" for t
    using modalClose_click_run [OF assms(4,5,11), of t] by blast
  from opens closes show ?thesis by blast
qed

text \<open>
  C9. Under the same markup contract, a click on a technology item while the modal
  container and the overlay both carry the marker \<^verbatim>\<open>active\<close> runs to its end, writes the
  item's image, title and text into the modal and leaves both without the marker: the
  modal closes, with the new content.
\<close>

theorem technologiesItem_click_closes_open_modal:
  assumes "image (modal reg) = Some mi" and "title (modal reg) = Some mt"
    and "text_el (modal reg) = Some mx"
    and "container (modal reg) = Some mc" and "overlay reg = Some ov"
    and "querySelector_within this ''data-technologies-avatar'' s = Some av"
    and "querySelector_within this ''data-technologies-title'' s = Some ti"
    and "querySelector_within this ''data-technologies-text'' s = Some tx"
    and "mt \<noteq> mx" and "tx \<noteq> mt" and "mc \<noteq> ov"
    and "has_class ''active'' mc s" and "has_class ''active'' ov s"
  shows "\<exists>s'. technologiesItem_click reg this s = Inr s' \<and>
           src (elems s' mi) = src (elems s av) \<and>
           alt (elems s' mi) = alt (elems s av) \<and>
           innerHTML (elems s' mt) = innerHTML (elems s ti) \<and>
           innerHTML (elems s' mx) = innerHTML (elems s tx) \<and>
           \<not> has_class ''active'' mc s' \<and> \<not> has_class ''active'' ov s'"
  using technologiesItem_click_run [OF assms(1-11)] assms(12,13) by blast

lemma technologies_elements:
  "technologies =
     \<lparr> items = [6],
       modal = \<lparr> container = Some 0, closeBtn = Some 1, image = Some 2, title = Some 3,
                 text_el = Some 4 \<rparr>,
       overlay = Some 5 \<rparr>"
  by code_simp

lemma technologies_parts:
  "image (modal technologies) = Some 2" "title (modal technologies) = Some 3"
  "text_el (modal technologies) = Some 4" "container (modal technologies) = Some 0"
  "overlay technologies = Some 5"
  by (simp_all add: technologies_elements)

lemma modal_page_item:
  "querySelector_within 6 ''data-technologies-avatar'' modal_page = Some 7"
  "querySelector_within 6 ''data-technologies-title'' modal_page = Some 8"
  "querySelector_within 6 ''data-technologies-text'' modal_page = Some 9"
  by code_simp+

lemma open_modal_page_item:
  "querySelector_within 6 ''data-technologies-avatar'' open_modal_page = Some 7"
  "querySelector_within 6 ''data-technologies-title'' open_modal_page = Some 8"
  "querySelector_within 6 ''data-technologies-text'' open_modal_page = Some 9"
  by code_simp+

lemma item_content:
  "src (elems modal_page 7) = ''flutter.png''" "alt (elems modal_page 7) = ''Flutter''"
  "innerHTML (elems modal_page 8) = ''Flutter''"
  "innerHTML (elems modal_page 9) = ''<p>Mobile apps</p>''"
  "src (elems open_modal_page 7) = ''flutter.png''" "alt (elems open_modal_page 7) = ''Flutter''"
  "innerHTML (elems open_modal_page 8) = ''Flutter''"
  "innerHTML (elems open_modal_page 9) = ''<p>Mobile apps</p>''"
  by code_simp+

lemma modal_markers:
  "\<not> has_class ''active'' 0 modal_page" "\<not> has_class ''active'' 5 modal_page"
  "has_class ''active'' 0 open_modal_page" "has_class ''active'' 5 open_modal_page"
  by code_simp+

text \<open>
  With the modal open, a click on the technology item leaves the container and the overlay
  without the marker; with the modal closed, a click on the close button leaves both
  with it.
\<close>

theorem modal_item_click_reveals_counterexample:
  "items technologies = [6] \<and>
   container (modal technologies) = Some 0 \<and> overlay technologies = Some 5 \<and>
   has_class ''active'' 0 open_modal_page \<and> has_class ''active'' 5 open_modal_page \<and>
   \<not> has_class ''active'' 0 (final (technologiesItem_click technologies 6 open_modal_page)) \<and>
   \<not> has_class ''active'' 5 (final (technologiesItem_click technologies 6 open_modal_page)) \<and>
   \<not> has_class ''active'' 0 modal_page \<and> \<not> has_class ''active'' 5 modal_page \<and>
   has_class ''active'' 0 (final (modalClose_click technologies modal_page)) \<and>
   has_class ''active'' 5 (final (modalClose_click technologies modal_page))"
  by code_simp

theorem modal_open_close_toggle_witness:
  "image (modal technologies) = Some 2 \<and> title (modal technologies) = Some 3 \<and>
   text_el (modal technologies) = Some 4 \<and> container (modal technologies) = Some 0 \<and>
   overlay technologies = Some 5 \<and>
   querySelector_within 6 ''data-technologies-avatar'' modal_page = Some 7 \<and>
   querySelector_within 6 ''data-technologies-title'' modal_page = Some 8 \<and>
   querySelector_within 6 ''data-technologies-text'' modal_page = Some 9 \<and>
   \<not> has_class ''active'' 0 modal_page \<and> \<not> has_class ''active'' 5 modal_page \<and>
   src (elems (final (technologiesItem_click technologies 6 modal_page)) 2) = ''flutter.png'' \<and>
   alt (elems (final (technologiesItem_click technologies 6 modal_page)) 2) = ''Flutter'' \<and>
   innerHTML (elems (final (technologiesItem_click technologies 6 modal_page)) 3) = ''Flutter'' \<and>
   innerHTML (elems (final (technologiesItem_click technologies 6 modal_page)) 4) =
     ''<p>Mobile apps</p>'' \<and>
   has_class ''active'' 0 (final (technologiesItem_click technologies 6 modal_page)) \<and>
   has_class ''active'' 5 (final (technologiesItem_click technologies 6 modal_page)) \<and>
   \<not> has_class ''active'' 0 (final (modalClose_click technologies open_modal_page)) \<and>
   \<not> has_class ''active'' 5 (final (modalClose_click technologies open_modal_page))"
proof -
  have apart: "(3::node) \<noteq> 4" "(9::node) \<noteq> 3" "(0::node) \<noteq> 5"
    by simp_all
  note toggles = modal_open_close_toggle [OF technologies_parts modal_page_item apart]
  from toggles obtain s' where
    run: "technologiesItem_click technologies 6 modal_page = Inr s'"
    and opened: "src (elems s' 2) = src (elems modal_page 7)"
      "alt (elems s' 2) = alt (elems modal_page 7)"
      "innerHTML (elems s' 3) = innerHTML (elems modal_page 8)"
      "innerHTML (elems s' 4) = innerHTML (elems modal_page 9)"
      "has_class ''active'' 0 s' \<longleftrightarrow> \<not> has_class ''active'' 0 modal_page"
      "has_class ''active'' 5 s' \<longleftrightarrow> \<not> has_class ''active'' 5 modal_page"
    by blast
  from toggles obtain t' where
    run2: "modalClose_click technologies open_modal_page = Inr t'"
    and closed: "has_class ''active'' 0 t' \<longleftrightarrow> \<not> has_class ''active'' 0 open_modal_page"
      "has_class ''active'' 5 t' \<longleftrightarrow> \<not> has_class ''active'' 5 open_modal_page"
    by blast
  have "final (technologiesItem_click technologies 6 modal_page) = s'"
    using run by (rule final_Inr)
  moreover have "final (modalClose_click technologies open_modal_page) = t'"
    using run2 by (rule final_Inr)
  ultimately show ?thesis
    using opened closed
    by (simp add: technologies_parts modal_page_item item_content modal_markers)
qed

theorem technologiesItem_click_closes_open_modal_witness:
  "image (modal technologies) = Some 2 \<and> title (modal technologies) = Some 3 \<and>
   text_el (modal technologies) = Some 4 \<and> container (modal technologies) = Some 0 \<and>
   overlay technologies = Some 5 \<and>
   querySelector_within 6 ''data-technologies-avatar'' open_modal_page = Some 7 \<and>
   querySelector_within 6 ''data-technologies-title'' open_modal_page = Some 8 \<and>
   querySelector_within 6 ''data-technologies-text'' open_modal_page = Some 9 \<and>
   has_class ''active'' 0 open_modal_page \<and> has_class ''active'' 5 open_modal_page \<and>
   src (elems open_modal_page 2) = ''dart.png'' \<and>
   src (elems (final (technologiesItem_click technologies 6 open_modal_page)) 2) =
     ''flutter.png'' \<and>
   innerHTML (elems (final (technologiesItem_click technologies 6 open_modal_page)) 3) =
     ''Flutter'' \<and>
   \<not> has_class ''active'' 0 (final (technologiesItem_click technologies 6 open_modal_page)) \<and>
   \<not> has_class ''active'' 5 (final (technologiesItem_click technologies 6 open_modal_page))"
proof -
  have apart: "(3::node) \<noteq> 4" "(9::node) \<noteq> 3" "(0::node) \<noteq> 5"
    by simp_all
  have before: "src (elems open_modal_page 2) = ''dart.png''"
    by code_simp
  from technologiesItem_click_closes_open_modal
    [OF technologies_parts open_modal_page_item apart modal_markers(3,4)]
  obtain s' where
    run: "technologiesItem_click technologies 6 open_modal_page = Inr s'"
    and closed: "src (elems s' 2) = src (elems open_modal_page 7)"
      "innerHTML (elems s' 3) = innerHTML (elems open_modal_page 8)"
      "\<not> has_class ''active'' 0 s'" "\<not> has_class ''active'' 5 s'"
    by blast
  have "final (technologiesItem_click technologies 6 open_modal_page) = s'"
    using run by (rule final_Inr)
  then show ?thesis
    using closed before
    by (simp add: technologies_parts open_modal_page_item item_content modal_markers)
qed

section \<open>Case in category matching\<close>

lemma lowerChar_not_upper: "\<not> isUpper (lowerChar c)"
proof (cases "isUpper c")
  case True
  then have "of_char c + (32::nat) < 256" and "90 < of_char c + (32::nat)"
    and "of_char c + (32::nat) < 192 \<or> 222 < of_char c + (32::nat)"
    by (auto simp add: isUpper_def)
  then show ?thesis
    using True by (auto simp add: lowerChar_def isUpper_def)
next
  case False
  then show ?thesis by (simp add: lowerChar_def)
qed

lemma lowerChar_changes_upper: "lowerChar c \<noteq> c \<longleftrightarrow> isUpper c"
  using lowerChar_not_upper [of c] by (auto simp add: lowerChar_def)

lemma toLowerCase_example:
  "toLowerCase ''Web Design 2'' = ''web design 2''"
  "toLowerCase [CHR 0xC9, CHR ''t'', CHR 0xE9] = [CHR 0xE9, CHR ''t'', CHR 0xE9]"
  "toLowerCase [CHR 0xD7, CHR 0xDF, CHR 0xDE] = [CHR 0xD7, CHR 0xDF, CHR 0xFE]"
  by code_simp+










end
